theory Spec2Isabelle
  imports Main
begin

section \<open>The CSV to SQL Server pipeline of \<^verbatim>\<open>final.py\<close>\<close>

text \<open>
  The script has two tasks, run in sequence: \<^verbatim>\<open>create_table_if_missed\<close> (the Schema
  Ensurer) and \<^verbatim>\<open>load_data\<close> (the Loader). Both are embedded below as functions over
  an explicit world (the database, the connection counter, the log). The libraries the
  script calls (pandas, pyodbc, the engine) are represented by the few operations the
  script uses, written out with the behaviour the script relies on.
\<close>

subsection \<open>Strings\<close>

text \<open>
  A Python \<^verbatim>\<open>str\<close> is a sequence of code points; a \<^typ>\<open>char\<close> stands for a code
  point below 256. \<^verbatim>\<open>str.isspace\<close> holds below 256 for the code points 9 to 13, 28 to
  32, 133 and 160; \<^verbatim>\<open>str.lower\<close> moves A to Z and the capital letters 192 to 222
  (215, the multiplication sign, apart) up by 32.
\<close>

definition isspace :: "char \<Rightarrow> bool" where
  "isspace c =
     (let n = (of_char c :: nat)
      in (9 \<le> n \<and> n \<le> 13) \<or> (28 \<le> n \<and> n \<le> 32) \<or> n = 133 \<or> n = 160)"

definition strip :: "string \<Rightarrow> string" where
  "strip s = rev (dropWhile isspace (rev (dropWhile isspace s)))"

definition lower_char :: "char \<Rightarrow> char" where
  "lower_char c =
     (let n = (of_char c :: nat)
      in if (65 \<le> n \<and> n \<le> 90) \<or> (192 \<le> n \<and> n \<le> 222 \<and> n \<noteq> 215)
         then char_of (n + 32) else c)"

definition lower :: "string \<Rightarrow> string" where
  "lower s = map lower_char s"

fun digits :: "nat \<Rightarrow> string" where
  "digits n =
     (if n < 10 then [char_of (48 + n)]
      else digits (n div 10) @ [char_of (48 + n mod 10)])"

declare digits.simps [simp del]

definition zfill :: "nat \<Rightarrow> string \<Rightarrow> string" where
  "zfill w s = replicate (w - length s) (CHR ''0'') @ s"

subsection \<open>Cells and frames\<close>

datatype date = Date (year: nat) (month: nat) (day: nat)

text \<open>
  The values a cell of the frame takes in \<^verbatim>\<open>load_data\<close>: text, a number (carried as
  the text \<^verbatim>\<open>str\<close> gives for it), the missing markers NaN and NaT of pandas, a
  calendar date, and Python's \<^verbatim>\<open>None\<close>.
\<close>

datatype cell = NaN | NaT | PyNone | Str string | Num string | Day date

text \<open>\<^verbatim>\<open>str(v)\<close>, which \<^verbatim>\<open>astype(str)\<close> applies to every element.\<close>

fun py_str :: "cell \<Rightarrow> string" where
  "py_str NaN = ''nan''"
| "py_str NaT = ''NaT''"
| "py_str PyNone = ''None''"
| "py_str (Str s) = s"
| "py_str (Num s) = s"
| "py_str (Day d) =
     zfill 4 (digits (year d)) @ ''-'' @ zfill 2 (digits (month d)) @ ''-'' @ zfill 2 (digits (day d))"

fun notnull :: "cell \<Rightarrow> bool" where
  "notnull NaN = False"
| "notnull NaT = False"
| "notnull PyNone = False"
| "notnull (Str s) = True"
| "notnull (Num s) = True"
| "notnull (Day d) = True"

text \<open>
  pandas keeps a dtype with every column. Line 79 depends on it in one respect: whether
  the column is of dtype object, which holds any Python value, or of a dtype that has a
  missing marker of its own (float64 with NaN, datetime64 with NaT). A column that
  \<^verbatim>\<open>read_csv\<close> or \<^verbatim>\<open>.dt.date\<close> builds is of dtype object when it holds a string or
  a date; a column of numbers and NaN is float64 (or int64), a column of NaT only is
  datetime64. \<open>object_flags n rs\<close> says of each of the \<open>n\<close> columns of the rows
  \<open>rs\<close> whether it is of dtype object.
\<close>

fun is_object :: "cell \<Rightarrow> bool" where
  "is_object NaN = False"
| "is_object NaT = False"
| "is_object (Num s) = False"
| "is_object PyNone = True"
| "is_object (Str s) = True"
| "is_object (Day d) = True"

definition object_flags :: "nat \<Rightarrow> cell list list \<Rightarrow> bool list" where
  "object_flags n rs =
     foldr (\<lambda>r flags. map (\<lambda>(v, b). is_object v \<or> b) (zip r flags)) rs (replicate n False)"

record frame =
  columns :: "string list"
  rows :: "cell list list"

datatype error =
    SourceReadError
  | SchemaMismatchError "string set" "string list"
  | KeyError string
  | AssembleError
  | AttributeError
  | ConnectionError
  | ProgrammingError
  | InsertError

text \<open>
  \<^verbatim>\<open>df[name]\<close> is a Series when the label occurs once and a DataFrame when it occurs
  several times; an absent label raises KeyError.
\<close>

datatype item = Series "cell list" | DataFrame frame

definition select :: "string \<Rightarrow> string list \<Rightarrow> cell list \<Rightarrow> cell list" where
  "select n cols r = map snd (filter (\<lambda>(l, v). l = n) (zip cols r))"

definition getitem :: "string \<Rightarrow> frame \<Rightarrow> error + item" where
  "getitem n df =
     (if n \<notin> set (columns df) then Inl (KeyError n)
      else if count_list (columns df) n = 1
      then Inr (Series (concat (map (select n (columns df)) (rows df))))
      else Inr (DataFrame
        \<lparr>columns = filter (\<lambda>l. l = n) (columns df),
         rows = map (select n (columns df)) (rows df)\<rparr>))"

text \<open>\<^verbatim>\<open>df[[n1, n2, ...]]\<close>: every column carrying a requested label, label by label.\<close>

definition getitem_list :: "string list \<Rightarrow> frame \<Rightarrow> error + frame" where
  "getitem_list ns df =
     (case filter (\<lambda>n. n \<notin> set (columns df)) ns of
        n # _ \<Rightarrow> Inl (KeyError n)
      | [] \<Rightarrow> Inr
          \<lparr>columns = concat (map (\<lambda>n. filter (\<lambda>l. l = n) (columns df)) ns),
           rows = map (\<lambda>r. concat (map (\<lambda>n. select n (columns df) r) ns)) (rows df)\<rparr>)"

text \<open>\<^verbatim>\<open>df[n] = f(df[n])\<close> for an elementwise \<open>f\<close> and a label that occurs once.\<close>

definition setitem_map :: "string \<Rightarrow> (cell \<Rightarrow> cell) \<Rightarrow> frame \<Rightarrow> frame" where
  "setitem_map n f df =
     df\<lparr>rows := map (\<lambda>r. map (\<lambda>(l, v). if l = n then f v else v) (zip (columns df) r)) (rows df)\<rparr>"

text \<open>\<^verbatim>\<open>df[n] = scalar\<close> for a label the frame does not have: a new last column.\<close>

definition setitem_new :: "string \<Rightarrow> cell \<Rightarrow> frame \<Rightarrow> frame" where
  "setitem_new n v df =
     \<lparr>columns = columns df @ [n], rows = map (\<lambda>r. r @ [v]) (rows df)\<rparr>"

text \<open>
  A frame is rectangular: \<^verbatim>\<open>read_csv\<close> fills the cells a short line lacks with NaN,
  and no row is wider than the header. A missing or malformed file is
  \<open>SourceReadError\<close>; the parse itself belongs to pandas and is the input \<open>None\<close> or
  \<open>Some\<close> of the parsed table.
\<close>

definition pad :: "nat \<Rightarrow> cell list \<Rightarrow> cell list" where
  "pad n r = take n r @ replicate (n - length r) NaN"

definition read_csv :: "frame option \<Rightarrow> error + frame" where
  "read_csv f =
     (case f of
        None \<Rightarrow> Inl SourceReadError
      | Some df \<Rightarrow> Inr (df\<lparr>rows := map (pad (length (columns df))) (rows df)\<rparr>))"

subsection \<open>What a run is given\<close>

text \<open>
  \<open>csv\<close> is the parsed source file, \<open>context\<close> the keyword arguments Airflow passes to
  the task, \<open>to_datetime\<close> the answer of \<^verbatim>\<open>pd.to_datetime(..., errors="coerce")\<close> for one
  element of a column (the column is passed too, as pandas may infer the format from
  it; \<open>None\<close> is an unparseable element), \<open>reachable\<close> whether \<^verbatim>\<open>pyodbc.connect\<close>
  succeeds, and \<open>accepts k batch\<close> whether the engine accepts the batch handed to
  \<^verbatim>\<open>executemany\<close> when \<open>k\<close> calls of it have gone before (constraints,
  connectivity, a missing table).
\<close>

record env =
  csv :: "frame option"
  "context" :: "string \<rightharpoonup> string"
  to_datetime :: "cell list \<Rightarrow> cell \<Rightarrow> date option"
  reachable :: bool
  accepts :: "nat \<Rightarrow> cell list list \<Rightarrow> bool"

subsection \<open>Preparing the records (lines 63 to 81)\<close>

definition expected :: "string set" where
  "expected = {''customer_name'', ''address'', ''birth_date''}"

definition dt_date :: "date option \<Rightarrow> cell" where
  "dt_date x = (case x of None \<Rightarrow> NaT | Some d \<Rightarrow> Day d)"

definition head :: "nat \<Rightarrow> frame \<Rightarrow> frame" where
  "head n df = df\<lparr>rows := take n (rows df)\<rparr>"

definition object_columns :: "frame \<Rightarrow> bool list" where
  "object_columns df = object_flags (length (columns df)) (rows df)"

text \<open>
  \<^verbatim>\<open>df.where(pd.notnull(df), None)\<close>, given which columns are of dtype object: there a
  missing value becomes \<^verbatim>\<open>None\<close>. In a float64 or datetime64 column \<^verbatim>\<open>None\<close> is
  stored as the column's own missing marker, so NaN stays NaN and NaT stays NaT.
\<close>

definition where_row :: "bool list \<Rightarrow> cell list \<Rightarrow> cell list" where
  "where_row objects r =
     map (\<lambda>(ob, v). if ob \<and> \<not> notnull v then PyNone else v) (zip objects r)"

definition where_notnull :: "bool list \<Rightarrow> frame \<Rightarrow> frame" where
  "where_notnull objects df = df\<lparr>rows := map (where_row objects) (rows df)\<rparr>"

definition normalize_columns :: "frame \<Rightarrow> frame" where
  "normalize_columns df = df\<lparr>columns := map (\<lambda>c. lower (strip c)) (columns df)\<rparr>"

text \<open>
  The selections of rows at lines 76 and 78 keep the dtype of every column, so the dtypes
  line 79 meets are those of the frame as line 75 leaves it: \<open>objects\<close> below.
\<close>

definition prepare :: "env \<Rightarrow> frame \<Rightarrow> error + cell list list" where
  "prepare e df0 =
     (let df = normalize_columns df0;
          missing = expected - set (columns df)
      in if missing \<noteq> {} then Inl (SchemaMismatchError missing (columns df))
      else case getitem_list [''customer_name'', ''address'', ''birth_date''] df of
        Inl err \<Rightarrow> Inl err
      | Inr df \<Rightarrow>
      (case getitem ''birth_date'' df of
        Inl err \<Rightarrow> Inl err
      | Inr (DataFrame _) \<Rightarrow> Inl AssembleError
      | Inr (Series col) \<Rightarrow>
      (let df = setitem_map ''birth_date'' (\<lambda>v. dt_date (to_datetime e col v)) df
       in case context e ''run_id'' of
        None \<Rightarrow> Inl (KeyError ''run_id'')
      | Some run_id \<Rightarrow>
      (let df = setitem_new ''airflow_run_id'' (Str run_id) df
       in case getitem ''customer_name'' df of
        Inl err \<Rightarrow> Inl err
      | Inr (DataFrame _) \<Rightarrow> Inl AttributeError
      | Inr (Series _) \<Rightarrow>
      (let df = setitem_map ''customer_name'' (\<lambda>v. Str (strip (py_str v))) df;
           objects = object_columns df;
           df = df\<lparr>rows := filter (\<lambda>r. select ''customer_name'' (columns df) r \<noteq> [Str '''']) (rows df)\<rparr>;
           df = head 50 df;
           df = where_notnull objects df
       in Inr (rows df))))))"

subsection \<open>The database, the connections and the log\<close>

datatype sqltype = IntT | NVarcharT nat | DateT | DateTime2T

datatype attr = IDENTITY nat nat | PRIMARY_KEY | NOT_NULL | NULLABLE | DEFAULT string

type_synonym coldef = "string \<times> sqltype \<times> attr list"

text \<open>The two statement forms of the script's DDL text.\<close>

datatype stmt = CreateTable string "coldef list" | IfObjectIdIsNull string stmt

text \<open>The messages the script logs, with the values it interpolates.\<close>

datatype log_msg =
    LoadingData
  | MissingColumnsCheck
  | Prepared nat
  | NoRecords
  | Inserted nat nat
  | Done nat

text \<open>
  \<open>tables\<close> is the catalogue of user tables, \<open>committed\<close> the rows of the target table
  that are durable (the four inserted fields of each), \<open>pending\<close> the rows of the open
  transaction. The counters record what has been done to the world: calls of
  \<^verbatim>\<open>pyodbc.connect\<close>, schema-changing statements executed, calls of
  \<^verbatim>\<open>executemany\<close>, calls of \<^verbatim>\<open>cn.commit()\<close>.
\<close>

record world =
  tables :: "string \<rightharpoonup> coldef list"
  committed :: "cell list list"
  pending :: "cell list list"
  connects :: nat
  ddl :: nat
  executes :: nat
  commits :: nat
  logger :: "log_msg list"

definition TARGET_TABLE :: string where
  "TARGET_TABLE = ''dbo.uinque_values''"

definition info :: "log_msg \<Rightarrow> world \<Rightarrow> world" where
  "info m w = w\<lparr>logger := logger w @ [m]\<rparr>"

text \<open>
  \<^verbatim>\<open>build_pyodbc_conn_str\<close> and \<^verbatim>\<open>pyodbc.connect\<close> are one step here; whether it
  succeeds is \<open>reachable\<close>. A new connection starts with an empty transaction.
\<close>

definition connect :: "world \<Rightarrow> world" where
  "connect w = w\<lparr>connects := Suc (connects w), pending := []\<rparr>"

text \<open>
  \<^verbatim>\<open>CREATE TABLE\<close> of a name the catalogue has is an error of the engine;
  \<^verbatim>\<open>IF OBJECT_ID(name, 'U') IS NULL\<close> runs its body only when no user table has the
  name.
\<close>

fun execute :: "stmt \<Rightarrow> world \<Rightarrow> error option \<times> world" where
  "execute (CreateTable n cs) w =
     (if tables w n \<noteq> None then (Some ProgrammingError, w)
      else (None, w\<lparr>tables := (tables w)(n \<mapsto> cs), ddl := Suc (ddl w)\<rparr>))"
| "execute (IfObjectIdIsNull n s) w =
     (if tables w n = None then execute s w else (None, w))"

subsection \<open>The Schema Ensurer\<close>

definition target_columns :: "coldef list" where
  "target_columns =
     [(''id'', IntT, [IDENTITY 1 1, PRIMARY_KEY, NOT_NULL]),
      (''customer_name'', NVarcharT 150, [NOT_NULL]),
      (''address'', NVarcharT 250, [NULLABLE]),
      (''birth_date'', DateT, [NULLABLE]),
      (''airflow_run_id'', NVarcharT 250, [NULLABLE]),
      (''loaded_at'', DateTime2T, [DEFAULT ''SYSDATETIME()''])]"

definition create_table_sql :: stmt where
  "create_table_sql =
     IfObjectIdIsNull TARGET_TABLE (CreateTable TARGET_TABLE target_columns)"

text \<open>The connection is in autocommit mode: leaving the \<^verbatim>\<open>with\<close> block ends no transaction.\<close>

definition create_table_if_missed :: "env \<Rightarrow> world \<Rightarrow> error option \<times> world" where
  "create_table_if_missed e w =
     (let w = connect w
      in if \<not> reachable e then (Some ConnectionError, w)
         else execute create_table_sql w)"

subsection \<open>The Destination Row of the specification\<close>

text \<open>
  Section 3 of the specification words the destination table as a list of fields:
  \<^verbatim>\<open>id\<close>, an auto-incrementing surrogate key; \<^verbatim>\<open>customer_name\<close>, non-null text of
  at most 150 characters; \<^verbatim>\<open>address\<close>, nullable text of at most 250 characters;
  \<^verbatim>\<open>birth_date\<close>, a nullable date; \<^verbatim>\<open>run_id\<close>, nullable text of at most 250
  characters; \<^verbatim>\<open>loaded_at\<close>, a timestamp with a server-assigned default.
  \<open>spec_destination_row\<close> is that list, in the specification's words and not taken
  from the script.
\<close>

datatype spec_field =
    AutoIncrementingKey
  | NonNullText nat
  | NullableText nat
  | NullableDate
  | ServerTimestampDefault

definition spec_destination_row :: "(string \<times> spec_field) list" where
  "spec_destination_row =
     [(''id'', AutoIncrementingKey),
      (''customer_name'', NonNullText 150),
      (''address'', NullableText 250),
      (''birth_date'', NullableDate),
      (''run_id'', NullableText 250),
      (''loaded_at'', ServerTimestampDefault)]"

text \<open>
  What a column of the script's \<^verbatim>\<open>CREATE TABLE\<close> is in these words: an integer
  identity column that is the primary key is an auto-incrementing key, an
  \<^verbatim>\<open>NVARCHAR(n)\<close> column is text of at most \<open>n\<close> characters, non-null or nullable as
  declared, and so on; \<open>None\<close> for a column that is none of the five.
\<close>

fun is_identity :: "attr \<Rightarrow> bool" where
  "is_identity (IDENTITY seed increment) = True"
| "is_identity PRIMARY_KEY = False"
| "is_identity NOT_NULL = False"
| "is_identity NULLABLE = False"
| "is_identity (DEFAULT v) = False"

fun spec_field_of :: "sqltype \<Rightarrow> attr list \<Rightarrow> spec_field option" where
  "spec_field_of IntT attrs =
     (if list_ex is_identity attrs \<and> PRIMARY_KEY \<in> set attrs then Some AutoIncrementingKey
      else None)"
| "spec_field_of (NVarcharT n) attrs =
     (if NOT_NULL \<in> set attrs then Some (NonNullText n)
      else if NULLABLE \<in> set attrs then Some (NullableText n)
      else None)"
| "spec_field_of DateT attrs = (if NULLABLE \<in> set attrs then Some NullableDate else None)"
| "spec_field_of DateTime2T attrs =
     (if DEFAULT ''SYSDATETIME()'' \<in> set attrs then Some ServerTimestampDefault else None)"

text \<open>The columns of a table in these words, when each of them is one of the five.\<close>

fun spec_columns_of :: "coldef list \<Rightarrow> (string \<times> spec_field) list option" where
  "spec_columns_of [] = Some []"
| "spec_columns_of ((n, t, attrs) # cs) =
     (case spec_field_of t attrs of
        None \<Rightarrow> None
      | Some f \<Rightarrow> map_option ((#) (n, f)) (spec_columns_of cs))"

subsection \<open>The Loader\<close>

definition batch_size :: nat where
  "batch_size = 50"

text \<open>
  The insert statement has four parameter markers: a tuple of another width is refused
  by the driver. A refused batch leaves nothing in the transaction that survives the
  rollback on leaving the \<^verbatim>\<open>with\<close> block. \<^verbatim>\<open>cn.commit()\<close> is taken to succeed.
\<close>

definition executemany :: "env \<Rightarrow> cell list list \<Rightarrow> world \<Rightarrow> error option \<times> world" where
  "executemany e batch w =
     (let w1 = w\<lparr>executes := Suc (executes w)\<rparr>
      in if \<exists>r \<in> set batch. length r \<noteq> 4 then (Some ProgrammingError, w1)
         else if \<not> accepts e (executes w) batch then (Some InsertError, w1)
         else (None, w1\<lparr>pending := pending w1 @ batch\<rparr>))"

definition commit :: "world \<Rightarrow> world" where
  "commit w =
     w\<lparr>committed := committed w @ pending w, pending := [], commits := Suc (commits w)\<rparr>"

text \<open>
  Leaving \<^verbatim>\<open>with pyodbc.connect(...) as cn\<close>: the driver commits the open transaction
  when the block ends normally and rolls it back when an exception leaves it.
\<close>

definition exit_connection :: "error option \<times> world \<Rightarrow> error option \<times> world" where
  "exit_connection r =
     (case r of
        (None, w) \<Rightarrow> (None, w\<lparr>committed := committed w @ pending w, pending := []\<rparr>)
      | (Some err, w) \<Rightarrow> (Some err, w\<lparr>pending := []\<rparr>))"

text \<open>The loop \<^verbatim>\<open>for i in range(0, total, batch_size)\<close>, from offset \<open>i\<close> on.\<close>

function insert_batches :: "env \<Rightarrow> cell list list \<Rightarrow> nat \<Rightarrow> world \<Rightarrow> error option \<times> world" where
  "insert_batches e records i w =
     (if i < length records then
        (case executemany e (take batch_size (drop i records)) w of
           (Some err, w') \<Rightarrow> (Some err, w')
         | (None, w') \<Rightarrow>
             insert_batches e records (i + batch_size)
               (info (Inserted (min (i + batch_size) (length records)) (length records))
                  (commit w')))
      else (None, w))"
  by pat_completeness auto
termination
  by (relation "measure (\<lambda>(e, records, i, w). length records - i)")
     (auto simp: batch_size_def)

declare insert_batches.simps [simp del]

definition load_data :: "env \<Rightarrow> world \<Rightarrow> error option \<times> world" where
  "load_data e w =
     (let w = info LoadingData w
      in case read_csv (csv e) of
        Inl err \<Rightarrow> (Some err, w)
      | Inr df \<Rightarrow>
      (let w = info MissingColumnsCheck w
       in case prepare e df of
        Inl err \<Rightarrow> (Some err, w)
      | Inr records \<Rightarrow>
      (let w = info (Prepared (length records)) w
       in if records = [] then (None, info NoRecords w)
          else
            (let w = connect w
             in if \<not> reachable e then (Some ConnectionError, w)
                else exit_connection
                  (case insert_batches e records 0 w of
                     (Some err, w') \<Rightarrow> (Some err, w')
                   | (None, w') \<Rightarrow> (None, info (Done (length records)) w'))))))"

subsection \<open>The pipeline, row by row\<close>

text \<open>
  What the column operations of \<open>prepare\<close> do to one row of the frame with normalized
  header: the birth_date column handed to \<open>to_datetime\<close>, the test of line 76, the row
  as line 75 leaves it, and the tuple \<^verbatim>\<open>itertuples\<close> yields for the row after line 79
  (the dtypes being those of the columns of all rows of the file).
\<close>

definition birth_dates :: "frame \<Rightarrow> cell list" where
  "birth_dates df = concat (map (select ''birth_date'' (columns df)) (rows df))"

definition survives :: "frame \<Rightarrow> cell list \<Rightarrow> bool" where
  "survives df r =
     (map (\<lambda>v. Str (strip (py_str v))) (select ''customer_name'' (columns df) r) \<noteq> [Str ''''])"

definition transformed :: "env \<Rightarrow> frame \<Rightarrow> string \<Rightarrow> cell list \<Rightarrow> cell list" where
  "transformed e df run_id r =
     map (\<lambda>v. Str (strip (py_str v))) (select ''customer_name'' (columns df) r)
     @ select ''address'' (columns df) r
     @ map (\<lambda>v. dt_date (to_datetime e (birth_dates df) v)) (select ''birth_date'' (columns df) r)
     @ [Str run_id]"

definition tuple_of :: "env \<Rightarrow> frame \<Rightarrow> string \<Rightarrow> cell list \<Rightarrow> cell list" where
  "tuple_of e df run_id r =
     where_row
       (object_flags
          (length (filter (\<lambda>l. l = ''customer_name'') (columns df))
           + length (filter (\<lambda>l. l = ''address'') (columns df))
           + length (filter (\<lambda>l. l = ''birth_date'') (columns df)) + 1)
          (map (transformed e df run_id) (rows df)))
       (transformed e df run_id r)"

definition rectangular :: "frame \<Rightarrow> bool" where
  "rectangular df = (\<forall>r \<in> set (rows df). length r = length (columns df))"

text \<open>
  A batch that \<^verbatim>\<open>executemany\<close> takes after \<open>k\<close> earlier calls: every tuple has
  the four parameters of the statement and the engine accepts it.
\<close>

definition accepted :: "env \<Rightarrow> nat \<Rightarrow> cell list list \<Rightarrow> bool" where
  "accepted e k batch = ((\<forall>r \<in> set batch. length r = 4) \<and> accepts e k batch)"


subsection \<open>Sample inputs\<close>

text \<open>
  Concrete inputs on which the properties below are evaluated: a database with no table
  and no row, and a small file whose header needs normalizing and has a column the
  Loader does not use. Its second row has a blank name, its third row has no value at
  all, its fourth row a date that does not parse.
\<close>

definition fresh :: world where
  "fresh = \<lparr>tables = Map.empty, committed = [], pending = [], connects = 0, ddl = 0,
     executes = 0, commits = 0, logger = []\<rparr>"

definition sample_file :: frame where
  "sample_file =
     \<lparr>columns = ['' Customer_Name'', ''ADDRESS'', ''notes'', ''Birth_Date ''],
      rows = [[Str '' Ann '', Str ''1 Main St'', Str ''x'', Str ''1990-05-17''],
              [Str ''   '', Str ''2 Side St'', NaN, Str ''1980-01-01''],
              [NaN, NaN, NaN, NaN],
              [Str ''Bob'', NaN, Str ''y'', Str ''not a date'']]\<rparr>"

definition sample_dates :: "cell list \<Rightarrow> cell \<Rightarrow> date option" where
  "sample_dates col v =
     (if v = Str ''1990-05-17'' then Some (Date 1990 5 17)
      else if v = Str ''1980-01-01'' then Some (Date 1980 1 1)
      else None)"

definition sample_run :: "string \<Rightarrow> env" where
  "sample_run run_id =
     \<lparr>csv = Some sample_file, context = [''run_id'' \<mapsto> run_id], to_datetime = sample_dates,
      reachable = True, accepts = (\<lambda>k b. True)\<rparr>"

text \<open>
  A longer file: a row with a blank name, then sixty rows with the names
  \<^verbatim>\<open>customer 0\<close> to \<^verbatim>\<open>customer 59\<close>, each with a street and a birth date that
  parses.
\<close>

definition long_file :: frame where
  "long_file =
     \<lparr>columns = [''customer_name'', ''address'', ''birth_date''],
      rows = [Str '' '', Str ''nowhere'', NaN]
             # map (\<lambda>i. [Str (''customer '' @ digits i), Str ''street'', Str ''1990-05-17''])
                 [0..<60]\<rparr>"

definition long_run :: env where
  "long_run =
     \<lparr>csv = Some long_file, context = [''run_id'' \<mapsto> ''manual__1''], to_datetime = sample_dates,
      reachable = True, accepts = (\<lambda>k b. True)\<rparr>"

text \<open>
  The file of the three lines \<^verbatim>\<open>Ann;1 Main St;1990-05-17\<close>,
  \<^verbatim>\<open>;2 Side St;1980-01-01\<close> and \<^verbatim>\<open>   ;3 Back St;1980-01-01\<close> under the header
  \<^verbatim>\<open>customer_name;address;birth_date\<close>. The customer_name of the second line is
  empty, and \<^verbatim>\<open>read_csv\<close> reads an empty field as NaN; the customer_name of the
  third line is three spaces.
\<close>

definition unnamed_file :: frame where
  "unnamed_file =
     \<lparr>columns = [''customer_name'', ''address'', ''birth_date''],
      rows = [[Str ''Ann'', Str ''1 Main St'', Str ''1990-05-17''],
              [NaN, Str ''2 Side St'', Str ''1980-01-01''],
              [Str ''   '', Str ''3 Back St'', Str ''1980-01-01'']]\<rparr>"

definition unnamed_run :: env where
  "unnamed_run =
     \<lparr>csv = Some unnamed_file, context = [''run_id'' \<mapsto> ''manual__1''],
      to_datetime = sample_dates, reachable = True, accepts = (\<lambda>k b. True)\<rparr>"

text \<open>
  The file of the two lines \<^verbatim>\<open>Ann;1 Main St;not a date\<close> and
  \<^verbatim>\<open>Bob;2 Side St;unknown\<close> under the same header: no birth_date of it parses.
\<close>

definition undated_file :: frame where
  "undated_file =
     \<lparr>columns = [''customer_name'', ''address'', ''birth_date''],
      rows = [[Str ''Ann'', Str ''1 Main St'', Str ''not a date''],
              [Str ''Bob'', Str ''2 Side St'', Str ''unknown'']]\<rparr>"

definition undated_run :: env where
  "undated_run =
     \<lparr>csv = Some undated_file, context = [''run_id'' \<mapsto> ''manual__1''],
      to_datetime = sample_dates, reachable = True, accepts = (\<lambda>k b. True)\<rparr>"

section \<open>Properties\<close>

subsection \<open>Selecting and updating cells by label\<close>

lemma select_append:
  "length a = length b \<Longrightarrow> select n (a @ a') (b @ b') = select n a b @ select n a' b'"
  by (simp add: select_def)

lemma length_select:
  "length cols \<le> length r \<Longrightarrow> length (select n cols r) = length (filter (\<lambda>l. l = n) cols)"
proof (induction cols arbitrary: r)
  case Nil
  then show ?case by (simp add: select_def)
next
  case (Cons c cols)
  then obtain x xs where "r = x # xs" by (cases r) auto
  with Cons show ?case by (auto simp: select_def)
qed

lemma select_same_label:
  "length xs = length (filter (\<lambda>l. l = m) cols) \<Longrightarrow>
   select n (filter (\<lambda>l. l = m) cols) xs = (if n = m then xs else [])"
proof (induction cols arbitrary: xs)
  case Nil
  then show ?case by (simp add: select_def)
next
  case (Cons l ls)
  show ?case
  proof (cases "l = m")
    case True
    with Cons.prems obtain y ys where "xs = y # ys" by (cases xs) auto
    with True Cons show ?thesis by (auto simp: select_def)
  next
    case False
    with Cons show ?thesis by simp
  qed
qed

lemma setitem_same_label:
  "length xs = length (filter (\<lambda>l. l = m) cols) \<Longrightarrow>
   map (\<lambda>(l, v). if l = n then f v else v) (zip (filter (\<lambda>l. l = m) cols) xs)
     = (if m = n then map f xs else xs)"
proof (induction cols arbitrary: xs)
  case Nil
  then show ?case by simp
next
  case (Cons l ls)
  show ?case
  proof (cases "l = m")
    case True
    with Cons.prems obtain y ys where "xs = y # ys" by (cases xs) auto
    with True Cons show ?thesis by auto
  next
    case False
    with Cons show ?thesis by simp
  qed
qed

lemma count_list_filter: "count_list xs x = length (filter (\<lambda>l. l = x) xs)"
  by (induction xs) auto

lemma rectangular_normalize: "rectangular (normalize_columns df) = rectangular df"
  by (simp add: rectangular_def normalize_columns_def)

lemma rectangular_read_csv: "read_csv f = Inr df \<Longrightarrow> rectangular df"
  by (auto simp: read_csv_def rectangular_def pad_def split: option.splits)

lemma kept_row:
  assumes "rectangular df"
    and "r \<in> set (take n (filter P (rows (normalize_columns df))))"
  shows "r \<in> set (rows df)" and "length (columns (normalize_columns df)) \<le> length r"
proof -
  from assms(2) have "r \<in> set (filter P (rows (normalize_columns df)))" by (rule in_set_takeD)
  then show "r \<in> set (rows df)" by (simp add: normalize_columns_def)
  with assms(1) show "length (columns (normalize_columns df)) \<le> length r"
    by (simp add: rectangular_def normalize_columns_def)
qed


lemma count_list_filter_label:
  "count_list (filter (\<lambda>l. l = m) cols) n = (if n = m then count_list cols n else 0)"
  by (induction cols) auto

lemma select_three:
  assumes "length xc = length (filter (\<lambda>l. l = a) cols)"
    and "length xa = length (filter (\<lambda>l. l = b) cols)"
    and "length xb = length (filter (\<lambda>l. l = c) cols)"
  shows "select n (filter (\<lambda>l. l = a) cols @ filter (\<lambda>l. l = b) cols @ filter (\<lambda>l. l = c) cols @ ex)
           (xc @ xa @ xb @ ey)
         = (if n = a then xc else []) @ (if n = b then xa else []) @ (if n = c then xb else [])
           @ select n ex ey"
  using assms by (simp add: select_append select_same_label)

lemma setitem_three:
  assumes "length xc = length (filter (\<lambda>l. l = a) cols)"
    and "length xa = length (filter (\<lambda>l. l = b) cols)"
    and "length xb = length (filter (\<lambda>l. l = c) cols)"
  shows "map (\<lambda>(l, v). if l = n then f v else v)
           (zip (filter (\<lambda>l. l = a) cols @ filter (\<lambda>l. l = b) cols @ filter (\<lambda>l. l = c) cols @ ex)
              (xc @ xa @ xb @ ey))
         = (if a = n then map f xc else xc) @ (if b = n then map f xa else xa)
           @ (if c = n then map f xb else xb)
           @ map (\<lambda>(l, v). if l = n then f v else v) (zip ex ey)"
  using assms by (simp add: setitem_same_label)


lemma prepare_rows:
  assumes rect: "rectangular df"
  shows "prepare e df =
    (if \<not> expected \<subseteq> set (columns (normalize_columns df))
     then Inl (SchemaMismatchError (expected - set (columns (normalize_columns df)))
                 (columns (normalize_columns df)))
     else if count_list (columns (normalize_columns df)) ''birth_date'' \<noteq> 1 then Inl AssembleError
     else case context e ''run_id'' of
       None \<Rightarrow> Inl (KeyError ''run_id'')
     | Some run_id \<Rightarrow>
       if count_list (columns (normalize_columns df)) ''customer_name'' \<noteq> 1 then Inl AttributeError
       else Inr (map (tuple_of e (normalize_columns df) run_id)
                   (take 50 (filter (survives (normalize_columns df)) (rows (normalize_columns df))))))"
proof (cases "expected \<subseteq> set (columns (normalize_columns df))")
  case False
  then show ?thesis by (simp add: prepare_def Let_def)
next
  case True
  define ndf where "ndf = normalize_columns df"
  define C where "C = columns ndf"
  define fc where "fc = filter (\<lambda>l. l = ''customer_name'') C"
  define fa where "fa = filter (\<lambda>l. l = ''address'') C"
  define fb where "fb = filter (\<lambda>l. l = ''birth_date'') C"
  define p where "p = (\<lambda>r. select ''customer_name'' C r @ select ''address'' C r @ select ''birth_date'' C r)"
  define P where "P = \<lparr>columns = fc @ fa @ fb, rows = map p (rows ndf)\<rparr>"
  have mem: "''customer_name'' \<in> set C" "''address'' \<in> set C" "''birth_date'' \<in> set C"
    using True by (auto simp: expected_def C_def ndf_def)
  have len: "length r = length C" if "r \<in> set (rows ndf)" for r
    using rect that by (simp add: rectangular_def C_def ndf_def normalize_columns_def)
  have lens: "length (select n C r) = length (filter (\<lambda>l. l = n) C)" if "r \<in> set (rows ndf)" for r n
    using len [OF that] by (simp add: length_select)
  have proj: "getitem_list [''customer_name'', ''address'', ''birth_date''] ndf = Inr P"
    using mem by (simp add: getitem_list_def P_def p_def fc_def fa_def fb_def C_def)
  have cntP: "count_list (columns P) n =
      (if n = ''customer_name'' \<or> n = ''address'' \<or> n = ''birth_date'' then count_list C n else 0)" for n
    by (auto simp: P_def fc_def fa_def fb_def count_list_filter_label)
  have memP: "''birth_date'' \<in> set (columns P)" "''customer_name'' \<in> set (columns P)"
    using mem by (auto simp: P_def fc_def fa_def fb_def)
  have selP: "select n (columns P) (p r) =
      (if n = ''customer_name'' \<or> n = ''address'' \<or> n = ''birth_date'' then select n C r else [])"
    if "r \<in> set (rows ndf)" for r n
    using select_three [of "select ''customer_name'' C r" "''customer_name''" C
        "select ''address'' C r" "''address''" "select ''birth_date'' C r" "''birth_date''" n "[]" "[]"]
      lens [OF that]
    by (auto simp: P_def p_def fc_def fa_def fb_def select_def)
  have col: "concat (map (select ''birth_date'' (columns P)) (rows P)) = birth_dates ndf"
  proof -
    have "map (select ''birth_date'' (columns P)) (rows P) = map (select ''birth_date'' C) (rows ndf)"
      using selP by (simp add: P_def)
    then show ?thesis by (simp add: birth_dates_def C_def)
  qed
  show ?thesis
  proof (cases "count_list C ''birth_date'' = 1")
    case False
    then have "getitem ''birth_date'' P = Inr (DataFrame
        \<lparr>columns = filter (\<lambda>l. l = ''birth_date'') (columns P),
         rows = map (select ''birth_date'' (columns P)) (rows P)\<rparr>)"
      using memP by (simp add: getitem_def cntP)
    with False True proj show ?thesis
      by (simp add: prepare_def Let_def ndf_def [symmetric] C_def [symmetric])
  next
    case bd1: True
    then have gb: "getitem ''birth_date'' P = Inr (Series (birth_dates ndf))"
      using memP col by (simp add: getitem_def cntP)
    show ?thesis
    proof (cases "context e ''run_id''")
      case None
      with bd1 True proj gb show ?thesis
        by (simp add: prepare_def Let_def ndf_def [symmetric] C_def [symmetric])
    next
      case (Some run_id)
      define f where "f = (\<lambda>v. dt_date (to_datetime e (birth_dates ndf) v))"
      define g where "g = (\<lambda>v. Str (strip (py_str v)))"
      define q1 where "q1 = (\<lambda>r. select ''customer_name'' C r @ select ''address'' C r
          @ map f (select ''birth_date'' C r) @ [Str run_id])"
      define Q1 where "Q1 = \<lparr>columns = fc @ fa @ fb @ [''airflow_run_id''], rows = map q1 (rows ndf)\<rparr>"
      define q2 where "q2 = (\<lambda>r. map g (select ''customer_name'' C r) @ select ''address'' C r
          @ map f (select ''birth_date'' C r) @ [Str run_id])"
      have s1: "setitem_new ''airflow_run_id'' (Str run_id) (setitem_map ''birth_date'' f P) = Q1"
      proof -
        have "map (\<lambda>(l, v). if l = ''birth_date'' then f v else v) (zip (columns P) (p r))
            = select ''customer_name'' C r @ select ''address'' C r @ map f (select ''birth_date'' C r)"
          if "r \<in> set (rows ndf)" for r
          using setitem_three [of "select ''customer_name'' C r" "''customer_name''" C
              "select ''address'' C r" "''address''" "select ''birth_date'' C r" "''birth_date''"
              "''birth_date''" f "[]" "[]"] lens [OF that]
          by (simp add: P_def p_def fc_def fa_def fb_def)
        then show ?thesis
          by (simp add: setitem_new_def setitem_map_def Q1_def q1_def P_def)
      qed
      have cntQ: "count_list (columns Q1) ''customer_name'' = count_list C ''customer_name''"
        by (simp add: Q1_def fc_def fa_def fb_def count_list_filter_label)
      have memQ: "''customer_name'' \<in> set (columns Q1)"
        using mem by (simp add: Q1_def fc_def)
      show ?thesis
      proof (cases "count_list C ''customer_name'' = 1")
        case False
        then have "getitem ''customer_name'' Q1 = Inr (DataFrame
            \<lparr>columns = filter (\<lambda>l. l = ''customer_name'') (columns Q1),
             rows = map (select ''customer_name'' (columns Q1)) (rows Q1)\<rparr>)"
          using memQ by (simp add: getitem_def cntQ)
        with False bd1 True proj gb Some s1 show ?thesis
          by (simp add: prepare_def Let_def ndf_def [symmetric] C_def [symmetric] f_def [symmetric])
      next
        case cn1: True
        then obtain col' where gc: "getitem ''customer_name'' Q1 = Inr (Series col')"
          using memQ by (simp add: getitem_def cntQ)
        have s2: "setitem_map ''customer_name'' g Q1
            = \<lparr>columns = columns Q1, rows = map q2 (rows ndf)\<rparr>"
        proof -
          have "map (\<lambda>(l, v). if l = ''customer_name'' then g v else v) (zip (columns Q1) (q1 r)) = q2 r"
            if "r \<in> set (rows ndf)" for r
            using setitem_three [of "select ''customer_name'' C r" "''customer_name''" C
                "select ''address'' C r" "''address''" "map f (select ''birth_date'' C r)" "''birth_date''"
                "''customer_name''" g "[''airflow_run_id'']" "[Str run_id]"] lens [OF that]
            by (simp add: Q1_def q1_def q2_def fc_def fa_def fb_def)
          then show ?thesis
            by (simp add: setitem_map_def Q1_def)
        qed
        have s3: "select ''customer_name'' (columns Q1) (q2 r) = map g (select ''customer_name'' C r)"
          if "r \<in> set (rows ndf)" for r
          using select_three [of "map g (select ''customer_name'' C r)" "''customer_name''" C
              "select ''address'' C r" "''address''" "map f (select ''birth_date'' C r)" "''birth_date''"
              "''customer_name''" "[''airflow_run_id'']" "[Str run_id]"] lens [OF that]
          by (simp add: Q1_def q2_def fc_def fa_def fb_def select_def)
        have s4: "filter (\<lambda>r. select ''customer_name'' (columns Q1) r \<noteq> [Str '''']) (map q2 (rows ndf))
            = map q2 (filter (survives ndf) (rows ndf))"
        proof -
          have "filter ((\<lambda>r. select ''customer_name'' (columns Q1) r \<noteq> [Str '''']) \<circ> q2) (rows ndf)
              = filter (survives ndf) (rows ndf)"
            by (rule filter_cong) (simp_all add: s3 survives_def g_def C_def)
          then show ?thesis by (simp add: filter_map)
        qed
        have q2: "q2 = transformed e ndf run_id"
          by (rule ext) (simp add: transformed_def q2_def g_def f_def C_def)
        define objects where "objects = object_flags (length (columns Q1)) (map q2 (rows ndf))"
        have s5: "where_row objects (q2 r) = tuple_of e ndf run_id r" for r
          unfolding objects_def q2
          by (simp add: tuple_of_def Q1_def fc_def fa_def fb_def C_def add.assoc)
        have "prepare e df = Inr (map (where_row objects)
            (take 50 (map q2 (filter (survives ndf) (rows ndf)))))"
          using cn1 bd1 True proj gb Some s1 gc s2 s4
          by (simp add: prepare_def Let_def ndf_def [symmetric] C_def [symmetric] f_def [symmetric]
              g_def [symmetric] head_def where_notnull_def object_columns_def
              objects_def [symmetric])
        also have "\<dots> = Inr (map (tuple_of e ndf run_id) (take 50 (filter (survives ndf) (rows ndf))))"
          by (simp add: take_map s5)
        finally show ?thesis
          using cn1 bd1 True Some
          by (simp add: ndf_def [symmetric] C_def [symmetric])
      qed
    qed
  qed
qed

subsection \<open>Stripping\<close>

lemma strip_prefix: "strip s = take (length (strip s)) (dropWhile isspace s)"
proof -
  define t where "t = dropWhile isspace s"
  have "rev (dropWhile isspace (rev t)) = take (length t - length (takeWhile isspace (rev t))) t"
    by (simp add: dropWhile_eq_drop rev_drop)
  then show ?thesis
    by (simp add: strip_def t_def [symmetric])
qed

lemma strip_no_leading: "dropWhile isspace (strip s) = strip s"
proof (cases "strip s")
  case Nil
  then show ?thesis by simp
next
  case (Cons c cs)
  define t where "t = dropWhile isspace s"
  have eq: "c # cs = take (Suc (length cs)) t"
    using Cons strip_prefix [of s] by (simp add: t_def)
  then have "t \<noteq> []" by auto
  then have "\<not> isspace (hd t)"
    unfolding t_def by (rule hd_dropWhile)
  moreover have "hd t = c"
    using eq \<open>t \<noteq> []\<close> by (cases t) auto
  ultimately show ?thesis using Cons by simp
qed

lemma strip_idem: "strip (strip s) = strip s"
proof -
  have "dropWhile isspace (rev (strip s)) = rev (strip s)"
    by (simp add: strip_def)
  then show ?thesis
    by (simp add: strip_def [of "strip s"] strip_no_leading)
qed

subsection \<open>What \<open>prepare\<close> returns\<close>

lemma prepare_Inr:
  assumes "rectangular df" and "prepare e df = Inr recs"
  shows "\<exists>run_id. context e ''run_id'' = Some run_id
    \<and> expected \<subseteq> set (columns (normalize_columns df))
    \<and> count_list (columns (normalize_columns df)) ''birth_date'' = 1
    \<and> count_list (columns (normalize_columns df)) ''customer_name'' = 1
    \<and> recs = map (tuple_of e (normalize_columns df) run_id)
               (take 50 (filter (survives (normalize_columns df)) (rows (normalize_columns df))))"
proof -
  note eq = prepare_rows [OF assms(1), of e]
  show ?thesis
  proof (cases "context e ''run_id''")
    case None
    with assms(2) show ?thesis unfolding eq by (simp split: if_splits)
  next
    case (Some run_id)
    with assms(2) show ?thesis unfolding eq by (simp split: if_splits)
  qed
qed

lemma prepare_length:
  assumes "rectangular df" and "prepare e df = Inr recs"
  shows "length recs \<le> 50"
  using prepare_Inr [OF assms] by auto

subsection \<open>The batch loop\<close>

lemma executemany_accepted:
  "accepted e (executes w) batch \<Longrightarrow>
   executemany e batch w = (None, w\<lparr>executes := Suc (executes w), pending := pending w @ batch\<rparr>)"
  by (auto simp: executemany_def accepted_def Let_def)

lemma executemany_refused:
  "\<not> accepted e (executes w) batch \<Longrightarrow>
   \<exists>err. (err = ProgrammingError \<or> err = InsertError)
      \<and> executemany e batch w = (Some err, w\<lparr>executes := Suc (executes w)\<rparr>)"
  by (auto simp: executemany_def accepted_def Let_def)







lemma insert_batches_single:
  assumes "records \<noteq> []" and "length records \<le> batch_size"
  shows "insert_batches e records 0 w =
    (case executemany e records w of
       (Some err, w') \<Rightarrow> (Some err, w')
     | (None, w') \<Rightarrow> (None, info (Inserted (length records) (length records)) (commit w')))"
proof -
  have stop: "insert_batches e records batch_size w' = (None, w')" for w'
    using assms(2) by (subst insert_batches.simps) simp
  show ?thesis
    using assms by (subst insert_batches.simps) (simp add: stop split: prod.splits option.splits)
qed

subsection \<open>The outcomes of a run\<close>

lemma load_data_records:
  assumes "read_csv (csv e) = Inr df" and "prepare e df = Inr recs"
  shows "load_data e w =
    (let w2 = w\<lparr>logger := logger w @ [LoadingData, MissingColumnsCheck, Prepared (length recs)]\<rparr>
     in if recs = [] then (None, info NoRecords w2)
        else if \<not> reachable e then (Some ConnectionError, connect w2)
        else exit_connection
          (case executemany e recs (connect w2) of
             (Some err, w') \<Rightarrow> (Some err, w')
           | (None, w') \<Rightarrow>
               (None, info (Done (length recs))
                  (info (Inserted (length recs) (length recs)) (commit w')))))"
proof (cases "recs = []")
  case True
  with assms show ?thesis by (simp add: load_data_def Let_def info_def)
next
  case False
  have "length recs \<le> batch_size"
    using prepare_length [OF rectangular_read_csv [OF assms(1)] assms(2)] by (simp add: batch_size_def)
  note single = insert_batches_single [OF False this]
  show ?thesis
  proof (cases "reachable e")
    case False
    with assms \<open>recs \<noteq> []\<close> show ?thesis by (simp add: load_data_def Let_def info_def)
  next
    case True
    obtain r w' where ex: "executemany e recs
        (connect (w\<lparr>logger := logger w @ [LoadingData, MissingColumnsCheck, Prepared (length recs)]\<rparr>)) = (r, w')"
      by (cases "executemany e recs
        (connect (w\<lparr>logger := logger w @ [LoadingData, MissingColumnsCheck, Prepared (length recs)]\<rparr>))")
    with assms \<open>recs \<noteq> []\<close> True show ?thesis
      by (cases r) (simp_all add: load_data_def Let_def info_def single)
  qed
qed


lemma load_data_unreadable:
  assumes "csv e = None"
  shows "load_data e w = (Some SourceReadError, w\<lparr>logger := logger w @ [LoadingData]\<rparr>)"
  using assms by (simp add: load_data_def read_csv_def Let_def info_def)

lemma load_data_unprepared:
  assumes "read_csv (csv e) = Inr df" and "prepare e df = Inl err"
  shows "load_data e w = (Some err, w\<lparr>logger := logger w @ [LoadingData, MissingColumnsCheck]\<rparr>)"
  using assms by (simp add: load_data_def Let_def info_def)

lemma load_data_unreachable:
  assumes "read_csv (csv e) = Inr df" and "prepare e df = Inr recs" and "recs \<noteq> []"
    and "\<not> reachable e"
  shows "load_data e w = (Some ConnectionError,
      w\<lparr>logger := logger w @ [LoadingData, MissingColumnsCheck, Prepared (length recs)],
        connects := Suc (connects w), pending := []\<rparr>)"
  using assms(3,4) unfolding load_data_records [OF assms(1,2)]
  by (simp add: connect_def)

lemma load_data_accepted:
  assumes "read_csv (csv e) = Inr df" and "prepare e df = Inr recs" and "recs \<noteq> []"
    and "reachable e" and "accepted e (executes w) recs"
  shows "load_data e w = (None,
      w\<lparr>logger := logger w @ [LoadingData, MissingColumnsCheck, Prepared (length recs),
                              Inserted (length recs) (length recs), Done (length recs)],
        connects := Suc (connects w), pending := [], executes := Suc (executes w),
        committed := committed w @ recs, commits := Suc (commits w)\<rparr>)"
proof -
  let ?w2 = "connect (w\<lparr>logger := logger w @ [LoadingData, MissingColumnsCheck, Prepared (length recs)]\<rparr>)"
  have "accepted e (executes ?w2) recs"
    using assms(5) by (simp add: connect_def)
  from executemany_accepted [OF this] assms(3,4) show ?thesis
    unfolding load_data_records [OF assms(1,2)]
    by (simp add: connect_def exit_connection_def info_def commit_def)
qed

lemma load_data_refused:
  assumes "read_csv (csv e) = Inr df" and "prepare e df = Inr recs" and "recs \<noteq> []"
    and "reachable e" and "\<not> accepted e (executes w) recs"
  shows "\<exists>err. (err = ProgrammingError \<or> err = InsertError) \<and> load_data e w = (Some err,
      w\<lparr>logger := logger w @ [LoadingData, MissingColumnsCheck, Prepared (length recs)],
        connects := Suc (connects w), pending := [], executes := Suc (executes w)\<rparr>)"
proof -
  let ?w2 = "connect (w\<lparr>logger := logger w @ [LoadingData, MissingColumnsCheck, Prepared (length recs)]\<rparr>)"
  have "\<not> accepted e (executes ?w2) recs"
    using assms(5) by (simp add: connect_def)
  from executemany_refused [OF this] obtain err where
    "err = ProgrammingError \<or> err = InsertError"
    "executemany e recs ?w2 = (Some err, ?w2\<lparr>executes := Suc (executes ?w2)\<rparr>)" by blast
  with assms(3,4) show ?thesis
    unfolding load_data_records [OF assms(1,2)]
    by (simp add: connect_def exit_connection_def)
qed

text \<open>Every run either inserts the prepared records, all of them, or inserts nothing.\<close>

lemma load_data_outcome:
  "(\<exists>df recs. read_csv (csv e) = Inr df \<and> prepare e df = Inr recs \<and> recs \<noteq> []
       \<and> accepted e (executes w) recs \<and> fst (load_data e w) = None
       \<and> committed (snd (load_data e w)) = committed w @ recs
       \<and> executes (snd (load_data e w)) = Suc (executes w)
       \<and> commits (snd (load_data e w)) = Suc (commits w))
   \<or> (committed (snd (load_data e w)) = committed w
       \<and> executes (snd (load_data e w)) \<le> Suc (executes w)
       \<and> commits (snd (load_data e w)) = commits w)"
proof (cases "csv e")
  case None
  then show ?thesis by (simp add: load_data_unreadable)
next
  case (Some df0)
  then obtain df where rd: "read_csv (csv e) = Inr df"
    by (simp add: read_csv_def)
  show ?thesis
  proof (cases "prepare e df")
    case (Inl err)
    then show ?thesis by (simp add: load_data_unprepared [OF rd])
  next
    case (Inr recs)
    show ?thesis
    proof (cases "recs = []")
      case True
      with load_data_records [OF rd Inr, of w] show ?thesis by (simp add: info_def)
    next
      case ne: False
      show ?thesis
      proof (cases "reachable e")
        case False
        then show ?thesis by (simp add: load_data_unreachable [OF rd Inr ne])
      next
        case True
        show ?thesis
        proof (cases "accepted e (executes w) recs")
          case True
          with load_data_accepted [OF rd Inr ne \<open>reachable e\<close> True, of ] rd Inr ne show ?thesis
            by simp
        next
          case False
          from load_data_refused [OF rd Inr ne \<open>reachable e\<close> False] obtain err where
            "load_data e w = (Some err,
               w\<lparr>logger := logger w @ [LoadingData, MissingColumnsCheck, Prepared (length recs)],
                 connects := Suc (connects w), pending := [], executes := Suc (executes w)\<rparr>)"
            by blast
          then show ?thesis by simp
        qed
      qed
    qed
  qed
qed

subsection \<open>The sample run\<close>

lemma rectangular_read_csv_id: "rectangular df \<Longrightarrow> read_csv (Some df) = Inr df"
proof -
  assume "rectangular df"
  then have "map (pad (length (columns df))) (rows df) = rows df"
    by (intro map_idI) (simp add: rectangular_def pad_def)
  then show ?thesis by (simp add: read_csv_def)
qed

lemma sample_read: "read_csv (csv (sample_run run_id)) = Inr sample_file"
  by (simp add: sample_run_def sample_file_def read_csv_def pad_def)

lemma sample_columns:
  "columns (normalize_columns sample_file) = [''customer_name'', ''address'', ''notes'', ''birth_date'']"
  by code_simp

lemma sample_prepare:
  "prepare (sample_run run_id) sample_file =
     Inr [[Str ''Ann'', Str ''1 Main St'', Day (Date 1990 5 17), Str run_id],
          [Str ''nan'', PyNone, PyNone, Str run_id],
          [Str ''Bob'', PyNone, PyNone, Str run_id]]"
  by code_simp

lemma length_object_flags:
  "\<forall>r \<in> set rs. n \<le> length r \<Longrightarrow> length (object_flags n rs) = n"
proof (induction rs)
  case Nil
  show ?case by (simp add: object_flags_def)
next
  case (Cons r rs)
  then have "length (object_flags n rs) = n" "n \<le> length r" by simp_all
  moreover have "object_flags n (r # rs)
      = map (\<lambda>(v, b). is_object v \<or> b) (zip r (object_flags n rs))"
    by (simp add: object_flags_def)
  ultimately show ?case by simp
qed

lemma length_transformed:
  "length (columns df) \<le> length r \<Longrightarrow>
   length (transformed e df run_id r)
     = length (filter (\<lambda>l. l = ''customer_name'') (columns df))
       + length (filter (\<lambda>l. l = ''address'') (columns df))
       + length (filter (\<lambda>l. l = ''birth_date'') (columns df)) + 1"
  by (simp add: transformed_def length_select)

lemma length_dtypes:
  assumes "rectangular df"
  shows "length (object_flags
          (length (filter (\<lambda>l. l = ''customer_name'') (columns df))
           + length (filter (\<lambda>l. l = ''address'') (columns df))
           + length (filter (\<lambda>l. l = ''birth_date'') (columns df)) + 1)
          (map (transformed e df run_id) (rows df)))
     = length (filter (\<lambda>l. l = ''customer_name'') (columns df))
       + length (filter (\<lambda>l. l = ''address'') (columns df))
       + length (filter (\<lambda>l. l = ''birth_date'') (columns df)) + 1"
proof (rule length_object_flags, rule ballI)
  fix t assume "t \<in> set (map (transformed e df run_id) (rows df))"
  then obtain r where r: "r \<in> set (rows df)" "t = transformed e df run_id r" by auto
  from assms r(1) have "length (columns df) \<le> length r" by (simp add: rectangular_def)
  from length_transformed [OF this, of e run_id] r(2)
  show "length (filter (\<lambda>l. l = ''customer_name'') (columns df))
       + length (filter (\<lambda>l. l = ''address'') (columns df))
       + length (filter (\<lambda>l. l = ''birth_date'') (columns df)) + 1 \<le> length t"
    by simp
qed

lemma where_row_nth:
  "i < length objects \<Longrightarrow> i < length r \<Longrightarrow>
   where_row objects r ! i = (if objects ! i \<and> \<not> notnull (r ! i) then PyNone else r ! i)"
  by (simp add: where_row_def)

lemma tuple_of_length:
  assumes "rectangular df" and "length (columns df) \<le> length r"
  shows "length (tuple_of e df run_id r)
     = count_list (columns df) ''customer_name'' + count_list (columns df) ''address''
       + count_list (columns df) ''birth_date'' + 1"
  unfolding tuple_of_def where_row_def length_map length_zip
    length_dtypes [OF assms(1)] length_transformed [OF assms(2)]
  by (simp add: count_list_filter)

lemma tuple_of_last:
  assumes "rectangular df" and "length (columns df) \<le> length r"
  shows "last (tuple_of e df run_id r) = Str run_id"
proof -
  let ?n = "length (filter (\<lambda>l. l = ''customer_name'') (columns df))
       + length (filter (\<lambda>l. l = ''address'') (columns df))
       + length (filter (\<lambda>l. l = ''birth_date'') (columns df))"
  let ?objects = "object_flags (?n + 1) (map (transformed e df run_id) (rows df))"
  have lo: "length ?objects = ?n + 1" by (rule length_dtypes [OF assms(1)])
  have lt: "length (transformed e df run_id r) = ?n + 1" by (rule length_transformed [OF assms(2)])
  have ll: "length (tuple_of e df run_id r) = ?n + 1"
    unfolding tuple_of_def where_row_def length_map length_zip lo lt by simp
  then have "tuple_of e df run_id r \<noteq> []" by auto
  from last_conv_nth [OF this] ll
  have "last (tuple_of e df run_id r) = tuple_of e df run_id r ! ?n"
    by simp
  moreover have "tuple_of e df run_id r ! ?n = where_row ?objects (transformed e df run_id r) ! ?n"
    by (simp add: tuple_of_def)
  moreover have "where_row ?objects (transformed e df run_id r) ! ?n
      = (if ?objects ! ?n \<and> \<not> notnull (transformed e df run_id r ! ?n) then PyNone
         else transformed e df run_id r ! ?n)"
  proof (rule where_row_nth)
    show "?n < length ?objects" unfolding lo by simp
    show "?n < length (transformed e df run_id r)" unfolding lt by simp
  qed
  moreover have "transformed e df run_id r ! ?n = Str run_id"
    by (simp add: transformed_def nth_append length_select [OF assms(2)])
  ultimately show ?thesis by simp
qed

lemma load_data_mismatch_only:
  assumes "read_csv (csv e) = Inr df" and "fst (load_data e w) = Some (SchemaMismatchError m f)"
  shows "prepare e df = Inl (SchemaMismatchError m f)"
proof (cases "prepare e df")
  case (Inl err)
  with assms show ?thesis by (simp add: load_data_unprepared)
next
  case (Inr recs)
  show ?thesis
  proof (cases "recs = []")
    case True
    with load_data_records [OF assms(1) Inr, of w] assms(2) show ?thesis by (simp add: info_def)
  next
    case ne: False
    show ?thesis
    proof (cases "reachable e")
      case False
      with load_data_unreachable [OF assms(1) Inr ne] assms(2) show ?thesis by simp
    next
      case True
      show ?thesis
      proof (cases "accepted e (executes w) recs")
        case True
        with load_data_accepted [OF assms(1) Inr ne \<open>reachable e\<close>] assms(2) show ?thesis by simp
      next
        case False
        from load_data_refused [OF assms(1) Inr ne \<open>reachable e\<close> False] assms(2)
        show ?thesis by auto
      qed
    qed
  qed
qed

subsection \<open>Nothing to insert\<close>

text \<open>
  Claim C6. When no record remains after cleaning and capping, \<open>load_data\<close> returns
  normally: it logs the count of zero and the message that there is nothing to insert,
  calls neither \<^verbatim>\<open>pyodbc.connect\<close> nor \<^verbatim>\<open>executemany\<close>, and leaves the rows of
  the destination table as they were.
\<close>

theorem load_data_no_records:
  assumes "read_csv (csv e) = Inr df" and "prepare e df = Inr []"
  shows "load_data e w =
           (None, w\<lparr>logger := logger w @ [LoadingData, MissingColumnsCheck, Prepared 0, NoRecords]\<rparr>)
         \<and> connects (snd (load_data e w)) = connects w
         \<and> executes (snd (load_data e w)) = executes w
         \<and> committed (snd (load_data e w)) = committed w"
  using assms by (simp add: load_data_def Let_def info_def)

text \<open>
  A file with a valid header and a single row whose name is blank, on a database that
  cannot be reached: the run still succeeds.
\<close>

theorem load_data_no_records_witness:
  "read_csv (csv \<lparr>csv = Some \<lparr>columns = ['' Customer_Name'', ''ADDRESS'', ''birth_date ''],
                               rows = [[Str '' '', NaN, NaN]]\<rparr>,
       context = [''run_id'' \<mapsto> ''manual__1''], to_datetime = (\<lambda>col v. None),
       reachable = False, accepts = (\<lambda>k b. False)\<rparr>)
     = Inr \<lparr>columns = ['' Customer_Name'', ''ADDRESS'', ''birth_date ''], rows = [[Str '' '', NaN, NaN]]\<rparr>
   \<and> prepare \<lparr>csv = Some \<lparr>columns = ['' Customer_Name'', ''ADDRESS'', ''birth_date ''],
                               rows = [[Str '' '', NaN, NaN]]\<rparr>,
       context = [''run_id'' \<mapsto> ''manual__1''], to_datetime = (\<lambda>col v. None),
       reachable = False, accepts = (\<lambda>k b. False)\<rparr>
       \<lparr>columns = ['' Customer_Name'', ''ADDRESS'', ''birth_date ''], rows = [[Str '' '', NaN, NaN]]\<rparr>
     = Inr []
   \<and> load_data \<lparr>csv = Some \<lparr>columns = ['' Customer_Name'', ''ADDRESS'', ''birth_date ''],
                               rows = [[Str '' '', NaN, NaN]]\<rparr>,
       context = [''run_id'' \<mapsto> ''manual__1''], to_datetime = (\<lambda>col v. None),
       reachable = False, accepts = (\<lambda>k b. False)\<rparr>
       \<lparr>tables = Map.empty, committed = [], pending = [], connects = 0, ddl = 0, executes = 0,
        commits = 0, logger = []\<rparr>
     = (None, \<lparr>tables = Map.empty, committed = [], pending = [], connects = 0, ddl = 0, executes = 0,
        commits = 0, logger = [LoadingData, MissingColumnsCheck, Prepared 0, NoRecords]\<rparr>)"
proof -
  let ?df = "\<lparr>columns = ['' Customer_Name'', ''ADDRESS'', ''birth_date ''], rows = [[Str '' '', NaN, NaN]]\<rparr>"
  let ?e = "\<lparr>csv = Some ?df, context = [''run_id'' \<mapsto> ''manual__1''],
       to_datetime = (\<lambda>col v. None), reachable = False, accepts = (\<lambda>k b. False)\<rparr>"
  have h1: "read_csv (csv ?e) = Inr ?df"
    by (simp add: read_csv_def pad_def)
  have h2: "prepare ?e ?df = Inr []"
    by code_simp
  show ?thesis
    using load_data_no_records [OF h1 h2] h1 h2 by simp
qed

subsection \<open>Missing columns\<close>

text \<open>
  Claim C2. With the header trimmed and lowercased, \<open>load_data\<close> raises
  \<open>SchemaMismatchError\<close> exactly when one of customer_name, address, birth_date is not
  among the column names. The error carries the missing names and the names found, and
  it is raised before \<^verbatim>\<open>pyodbc.connect\<close> is called: the world is the one the run
  started from, with two log lines more.
\<close>

theorem schema_mismatch:
  assumes "read_csv (csv e) = Inr df"
  shows "((\<exists>m f. fst (load_data e w) = Some (SchemaMismatchError m f))
            \<longleftrightarrow> \<not> expected \<subseteq> set (columns (normalize_columns df)))
    \<and> (\<not> expected \<subseteq> set (columns (normalize_columns df)) \<longrightarrow>
         load_data e w =
           (Some (SchemaMismatchError (expected - set (columns (normalize_columns df)))
                    (columns (normalize_columns df))),
            w\<lparr>logger := logger w @ [LoadingData, MissingColumnsCheck]\<rparr>)
         \<and> connects (snd (load_data e w)) = connects w
         \<and> executes (snd (load_data e w)) = executes w
         \<and> committed (snd (load_data e w)) = committed w)"
proof -
  note rect = rectangular_read_csv [OF assms]
  note pr = prepare_rows [OF rect, of e]
  have miss: "load_data e w =
           (Some (SchemaMismatchError (expected - set (columns (normalize_columns df)))
                    (columns (normalize_columns df))),
            w\<lparr>logger := logger w @ [LoadingData, MissingColumnsCheck]\<rparr>)"
    if "\<not> expected \<subseteq> set (columns (normalize_columns df))"
  proof -
    from that have "prepare e df = Inl (SchemaMismatchError (expected - set (columns (normalize_columns df)))
                    (columns (normalize_columns df)))"
      unfolding pr by simp
    then show ?thesis by (rule load_data_unprepared [OF assms])
  qed
  have only: "\<not> expected \<subseteq> set (columns (normalize_columns df))"
    if "fst (load_data e w) = Some (SchemaMismatchError m f)" for m f
  proof
    assume "expected \<subseteq> set (columns (normalize_columns df))"
    with load_data_mismatch_only [OF assms that] show False
      unfolding pr by (simp split: if_splits option.splits)
  qed
  show ?thesis
  proof (cases "expected \<subseteq> set (columns (normalize_columns df))")
    case True
    with only show ?thesis by blast
  next
    case False
    from miss [OF False] False show ?thesis by simp
  qed
qed

text \<open>A file whose header omits birth_date.\<close>

theorem schema_mismatch_witness:
  "read_csv (csv \<lparr>csv = Some \<lparr>columns = [''Customer_Name '', '' Address''],
                              rows = [[Str ''Ann'', Str ''1 Main St'']]\<rparr>,
       context = [''run_id'' \<mapsto> ''manual__1''], to_datetime = sample_dates,
       reachable = True, accepts = (\<lambda>k b. True)\<rparr>)
     = Inr \<lparr>columns = [''Customer_Name '', '' Address''], rows = [[Str ''Ann'', Str ''1 Main St'']]\<rparr>
   \<and> \<not> expected \<subseteq> set (columns (normalize_columns
         \<lparr>columns = [''Customer_Name '', '' Address''], rows = [[Str ''Ann'', Str ''1 Main St'']]\<rparr>))
   \<and> load_data \<lparr>csv = Some \<lparr>columns = [''Customer_Name '', '' Address''],
                              rows = [[Str ''Ann'', Str ''1 Main St'']]\<rparr>,
       context = [''run_id'' \<mapsto> ''manual__1''], to_datetime = sample_dates,
       reachable = True, accepts = (\<lambda>k b. True)\<rparr> fresh
     = (Some (SchemaMismatchError {''birth_date''} [''customer_name'', ''address'']),
        fresh\<lparr>logger := [LoadingData, MissingColumnsCheck]\<rparr>)
   \<and> connects (snd (load_data \<lparr>csv = Some \<lparr>columns = [''Customer_Name '', '' Address''],
                              rows = [[Str ''Ann'', Str ''1 Main St'']]\<rparr>,
       context = [''run_id'' \<mapsto> ''manual__1''], to_datetime = sample_dates,
       reachable = True, accepts = (\<lambda>k b. True)\<rparr> fresh)) = 0"
proof -
  let ?df = "\<lparr>columns = [''Customer_Name '', '' Address''], rows = [[Str ''Ann'', Str ''1 Main St'']]\<rparr>"
  let ?e = "\<lparr>csv = Some ?df, context = [''run_id'' \<mapsto> ''manual__1''], to_datetime = sample_dates,
       reachable = True, accepts = (\<lambda>k b. True)\<rparr>"
  have h1: "read_csv (csv ?e) = Inr ?df"
    by (simp add: read_csv_def pad_def)
  have cols: "columns (normalize_columns ?df) = [''customer_name'', ''address'']"
    by code_simp
  have h2: "\<not> expected \<subseteq> set (columns (normalize_columns ?df))"
    unfolding cols by (simp add: expected_def)
  have m: "expected - {''customer_name'', ''address''} = {''birth_date''}"
    by (auto simp: expected_def)
  from schema_mismatch [OF h1, of fresh] h2 have
    "load_data ?e fresh =
       (Some (SchemaMismatchError (expected - set (columns (normalize_columns ?df)))
                (columns (normalize_columns ?df))),
        fresh\<lparr>logger := logger fresh @ [LoadingData, MissingColumnsCheck]\<rparr>)"
    "connects (snd (load_data ?e fresh)) = connects fresh"
    by blast+
  then show ?thesis
    using h1 h2 unfolding cols by (simp add: fresh_def m)
qed

subsection \<open>The run identifier\<close>

text \<open>
  Claim C8. In a run whose context gives the identifier \<open>R\<close>, every tuple the run
  adds to the table has four fields, the fourth being \<open>R\<close>; and every tuple prepared
  in a run with another identifier \<open>R'\<close> carries \<open>R'\<close>, not \<open>R\<close>, as its run
  identifier (the last field).
\<close>

theorem run_id_stamped:
  assumes "context e ''run_id'' = Some R"
  shows "(\<exists>new. committed (snd (load_data e w)) = committed w @ new
            \<and> (\<forall>rec \<in> set new. length rec = 4 \<and> rec ! 3 = Str R))
    \<and> (\<forall>e' df recs R'. context e' ''run_id'' = Some R' \<and> R' \<noteq> R
            \<and> read_csv (csv e') = Inr df \<and> prepare e' df = Inr recs \<longrightarrow>
          (\<forall>rec \<in> set recs. last rec = Str R' \<and> last rec \<noteq> Str R))"
proof (intro conjI allI impI)
  have stamped: "\<forall>rec \<in> set recs. last rec = Str R'"
    if "context e' ''run_id'' = Some R'" "read_csv (csv e') = Inr df" "prepare e' df = Inr recs"
    for e' df recs R'
  proof
    fix rec assume rec: "rec \<in> set recs"
    note rect = rectangular_read_csv [OF that(2)]
    from prepare_Inr [OF rect that(3)] that(1)
    have "recs = map (tuple_of e' (normalize_columns df) R')
        (take 50 (filter (survives (normalize_columns df)) (rows (normalize_columns df))))"
      by auto
    with rec obtain r where
      r: "r \<in> set (take 50 (filter (survives (normalize_columns df)) (rows (normalize_columns df))))"
      and eq: "rec = tuple_of e' (normalize_columns df) R' r"
      by auto
    have "rectangular (normalize_columns df)" using rect by (simp add: rectangular_normalize)
    from tuple_of_last [OF this kept_row(2) [OF rect r]] eq
    show "last rec = Str R'" by simp
  qed
  {
    fix e' df recs R'
    assume "context e' ''run_id'' = Some R' \<and> R' \<noteq> R \<and> read_csv (csv e') = Inr df
      \<and> prepare e' df = Inr recs"
    with stamped [of e' R' df recs]
    show "\<forall>rec \<in> set recs. last rec = Str R' \<and> last rec \<noteq> Str R" by simp
  }
  from load_data_outcome [of e w]
  show "\<exists>new. committed (snd (load_data e w)) = committed w @ new
            \<and> (\<forall>rec \<in> set new. length rec = 4 \<and> rec ! 3 = Str R)"
  proof
    assume "\<exists>df recs. read_csv (csv e) = Inr df \<and> prepare e df = Inr recs \<and> recs \<noteq> []
       \<and> accepted e (executes w) recs \<and> fst (load_data e w) = None
       \<and> committed (snd (load_data e w)) = committed w @ recs
       \<and> executes (snd (load_data e w)) = Suc (executes w)
       \<and> commits (snd (load_data e w)) = Suc (commits w)"
    then obtain df recs where a: "read_csv (csv e) = Inr df" "prepare e df = Inr recs"
      "accepted e (executes w) recs" "committed (snd (load_data e w)) = committed w @ recs"
      by blast
    have "length rec = 4 \<and> rec ! 3 = Str R" if "rec \<in> set recs" for rec
    proof -
      have l: "length rec = 4" using a(3) that by (simp add: accepted_def)
      have "last rec = Str R" using stamped [OF assms a(1,2)] that by simp
      moreover have "last rec = rec ! 3"
        using l by (cases rec) (auto simp: last_conv_nth)
      ultimately show ?thesis using l by simp
    qed
    with a(4) show ?thesis by blast
  next
    assume "committed (snd (load_data e w)) = committed w
       \<and> executes (snd (load_data e w)) \<le> Suc (executes w)
       \<and> commits (snd (load_data e w)) = commits w"
    then show ?thesis by simp
  qed
qed

text \<open>
  Two runs on the sample file: the tuples of the first carry its identifier as fourth
  field, the tuples prepared by the second carry the second's.
\<close>

theorem run_id_stamped_witness:
  "context (sample_run ''manual__1'') ''run_id'' = Some ''manual__1''
   \<and> committed (snd (load_data (sample_run ''manual__1'') fresh))
       = [[Str ''Ann'', Str ''1 Main St'', Day (Date 1990 5 17), Str ''manual__1''],
          [Str ''nan'', PyNone, PyNone, Str ''manual__1''],
          [Str ''Bob'', PyNone, PyNone, Str ''manual__1'']]
   \<and> map (\<lambda>rec. (length rec, rec ! 3)) (committed (snd (load_data (sample_run ''manual__1'') fresh)))
       = [(4, Str ''manual__1''), (4, Str ''manual__1''), (4, Str ''manual__1'')]
   \<and> context (sample_run ''scheduled__2'') ''run_id'' = Some ''scheduled__2''
   \<and> ''scheduled__2'' \<noteq> ''manual__1''
   \<and> prepare (sample_run ''scheduled__2'') sample_file
       = Inr [[Str ''Ann'', Str ''1 Main St'', Day (Date 1990 5 17), Str ''scheduled__2''],
              [Str ''nan'', PyNone, PyNone, Str ''scheduled__2''],
              [Str ''Bob'', PyNone, PyNone, Str ''scheduled__2'']]
   \<and> map last [[Str ''Ann'', Str ''1 Main St'', Day (Date 1990 5 17), Str ''scheduled__2''],
              [Str ''nan'', PyNone, PyNone, Str ''scheduled__2''],
              [Str ''Bob'', PyNone, PyNone, Str ''scheduled__2'']]
       = [Str ''scheduled__2'', Str ''scheduled__2'', Str ''scheduled__2'']"
proof -
  let ?e = "sample_run ''manual__1''"
  let ?recs = "[[Str ''Ann'', Str ''1 Main St'', Day (Date 1990 5 17), Str ''manual__1''],
          [Str ''nan'', PyNone, PyNone, Str ''manual__1''],
          [Str ''Bob'', PyNone, PyNone, Str ''manual__1'']]"
  let ?recs' = "[[Str ''Ann'', Str ''1 Main St'', Day (Date 1990 5 17), Str ''scheduled__2''],
              [Str ''nan'', PyNone, PyNone, Str ''scheduled__2''],
              [Str ''Bob'', PyNone, PyNone, Str ''scheduled__2'']]"
  have h: "context ?e ''run_id'' = Some ''manual__1''"
    by (simp add: sample_run_def)
  have h': "context (sample_run ''scheduled__2'') ''run_id'' = Some ''scheduled__2''"
    by (simp add: sample_run_def)
  have acc: "accepted ?e (executes fresh) ?recs"
    by (simp add: accepted_def sample_run_def)
  have run: "committed (snd (load_data ?e fresh)) = ?recs"
    using load_data_accepted [OF sample_read sample_prepare _ _ acc]
    by (simp add: sample_run_def fresh_def)
  note inst = run_id_stamped [OF h, of fresh]
  from inst obtain new where
    n: "committed (snd (load_data ?e fresh)) = committed fresh @ new"
      "\<forall>rec \<in> set new. length rec = 4 \<and> rec ! 3 = Str ''manual__1''"
    by blast
  have cf: "committed fresh = []" by (simp add: fresh_def)
  from n(1) have "new = ?recs" unfolding run cf by simp
  with n(2) have c1: "map (\<lambda>rec. (length rec, rec ! 3)) ?recs
       = [(4, Str ''manual__1''), (4, Str ''manual__1''), (4, Str ''manual__1'')]" by simp
  from inst have "\<forall>e' df recs R'. context e' ''run_id'' = Some R' \<and> R' \<noteq> ''manual__1''
            \<and> read_csv (csv e') = Inr df \<and> prepare e' df = Inr recs \<longrightarrow>
          (\<forall>rec \<in> set recs. last rec = Str R' \<and> last rec \<noteq> Str ''manual__1'')"
    by blast
  from this [rule_format, of "sample_run ''scheduled__2''" "''scheduled__2''" sample_file,
      OF conjI [OF h' conjI [OF _ conjI [OF sample_read sample_prepare]]]]
  have c2: "map last ?recs' = [Str ''scheduled__2'', Str ''scheduled__2'', Str ''scheduled__2'']"
    by simp
  show ?thesis
    using h h' c1 c2 sample_prepare [of "''scheduled__2''"] unfolding run by simp
qed

subsection \<open>One batch at most\<close>

text \<open>
  Claim C10. The cap of line 78 and the batch size of line 94 are both 50: a run calls
  \<^verbatim>\<open>executemany\<close> at most once and \<^verbatim>\<open>cn.commit()\<close> at most once, the prepared
  records fit one batch, and the loop, asked to go on at offset \<open>batch_size\<close>, stops
  at once.
\<close>

theorem load_data_single_batch:
  "executes (snd (load_data e w)) \<le> Suc (executes w)
   \<and> commits (snd (load_data e w)) \<le> Suc (commits w)
   \<and> (\<forall>df recs. read_csv (csv e) = Inr df \<and> prepare e df = Inr recs \<longrightarrow>
          length recs \<le> batch_size
          \<and> (\<forall>w'. insert_batches e recs batch_size w' = (None, w')))"
proof (intro conjI allI impI)
  show "executes (snd (load_data e w)) \<le> Suc (executes w)"
    using load_data_outcome [of e w] by auto
  show "commits (snd (load_data e w)) \<le> Suc (commits w)"
    using load_data_outcome [of e w] by auto
next
  fix df recs
  assume a: "read_csv (csv e) = Inr df \<and> prepare e df = Inr recs"
  then show len: "length recs \<le> batch_size"
    using prepare_length [OF rectangular_read_csv, of "csv e" df e recs] by (simp add: batch_size_def)
  fix w'
  from len show "insert_batches e recs batch_size w' = (None, w')"
    by (subst insert_batches.simps) simp
qed

theorem load_data_single_batch_witness:
  "read_csv (csv (sample_run ''manual__1'')) = Inr sample_file
   \<and> prepare (sample_run ''manual__1'') sample_file
       = Inr [[Str ''Ann'', Str ''1 Main St'', Day (Date 1990 5 17), Str ''manual__1''],
              [Str ''nan'', PyNone, PyNone, Str ''manual__1''],
              [Str ''Bob'', PyNone, PyNone, Str ''manual__1'']]
   \<and> length [[Str ''Ann'', Str ''1 Main St'', Day (Date 1990 5 17), Str ''manual__1''],
              [Str ''nan'', PyNone, PyNone, Str ''manual__1''],
              [Str ''Bob'', PyNone, PyNone, Str ''manual__1'']] \<le> batch_size
   \<and> executes (snd (load_data (sample_run ''manual__1'') fresh)) \<le> Suc 0
   \<and> commits (snd (load_data (sample_run ''manual__1'') fresh)) \<le> Suc 0"
proof -
  let ?e = "sample_run ''manual__1''"
  from load_data_single_batch [of ?e fresh] have
    c1: "executes (snd (load_data ?e fresh)) \<le> Suc (executes fresh)"
      "commits (snd (load_data ?e fresh)) \<le> Suc (commits fresh)" and
    c2: "\<forall>df recs. read_csv (csv ?e) = Inr df \<and> prepare ?e df = Inr recs \<longrightarrow>
          length recs \<le> batch_size
          \<and> (\<forall>w'. insert_batches ?e recs batch_size w' = (None, w'))"
    by blast+
  from c2 sample_read [of "''manual__1''"] sample_prepare [of "''manual__1''"]
  have "length [[Str ''Ann'', Str ''1 Main St'', Day (Date 1990 5 17), Str ''manual__1''],
              [Str ''nan'', PyNone, PyNone, Str ''manual__1''],
              [Str ''Bob'', PyNone, PyNone, Str ''manual__1'']] \<le> batch_size"
    by blast
  with c1 sample_read [of "''manual__1''"] sample_prepare [of "''manual__1''"]
  show ?thesis by (simp add: fresh_def)
qed

subsection \<open>Creating the table twice\<close>

lemma created_columns:
  "spec_columns_of target_columns
   = Some [(''id'', AutoIncrementingKey),
              (''customer_name'', NonNullText 150),
              (''address'', NullableText 250),
              (''birth_date'', NullableDate),
              (''airflow_run_id'', NullableText 250),
              (''loaded_at'', ServerTimestampDefault)]"
  by (simp add: target_columns_def)

lemma created_twice:
  "tables (snd (create_table_if_missed (sample_run ''manual__1'')
                   (snd (create_table_if_missed (sample_run ''manual__1'') fresh))))
     ''dbo.uinque_values'' = Some target_columns"
  by (simp add: create_table_if_missed_def create_table_sql_def connect_def Let_def
      sample_run_def fresh_def TARGET_TABLE_def)

text \<open>
  The table the script creates is not the Destination Row of section 3 as that is
  written: run twice on the empty database, the Schema Ensurer leaves a table whose
  fifth column is named \<^verbatim>\<open>airflow_run_id\<close>, where section 3 has \<^verbatim>\<open>run_id\<close>. The
  insert statement of \<^verbatim>\<open>load_data\<close> names the column \<^verbatim>\<open>airflow_run_id\<close> too.
\<close>

theorem created_table_is_not_section3:
  "fst (create_table_if_missed (sample_run ''manual__1'') fresh) = None
   \<and> fst (create_table_if_missed (sample_run ''manual__1'')
            (snd (create_table_if_missed (sample_run ''manual__1'') fresh))) = None
   \<and> tables (snd (create_table_if_missed (sample_run ''manual__1'')
                   (snd (create_table_if_missed (sample_run ''manual__1'') fresh))))
        ''dbo.uinque_values''
      = Some [(''id'', IntT, [IDENTITY 1 1, PRIMARY_KEY, NOT_NULL]),
             (''customer_name'', NVarcharT 150, [NOT_NULL]),
             (''address'', NVarcharT 250, [NULLABLE]),
             (''birth_date'', DateT, [NULLABLE]),
             (''airflow_run_id'', NVarcharT 250, [NULLABLE]),
             (''loaded_at'', DateTime2T, [DEFAULT ''SYSDATETIME()''])]
   \<and> Option.bind
        (tables (snd (create_table_if_missed (sample_run ''manual__1'')
                   (snd (create_table_if_missed (sample_run ''manual__1'') fresh))))
           ''dbo.uinque_values'')
        spec_columns_of
      = Some [(''id'', AutoIncrementingKey),
              (''customer_name'', NonNullText 150),
              (''address'', NullableText 250),
              (''birth_date'', NullableDate),
              (''airflow_run_id'', NullableText 250),
              (''loaded_at'', ServerTimestampDefault)]
   \<and> Option.bind
        (tables (snd (create_table_if_missed (sample_run ''manual__1'')
                   (snd (create_table_if_missed (sample_run ''manual__1'') fresh))))
           ''dbo.uinque_values'')
        spec_columns_of
      \<noteq> Some spec_destination_row"
proof -
  have "fst (create_table_if_missed (sample_run ''manual__1'') fresh) = None"
    "fst (create_table_if_missed (sample_run ''manual__1'')
            (snd (create_table_if_missed (sample_run ''manual__1'') fresh))) = None"
    by (simp_all add: create_table_if_missed_def create_table_sql_def connect_def Let_def
        sample_run_def fresh_def TARGET_TABLE_def)
  moreover have "target_columns = [(''id'', IntT, [IDENTITY 1 1, PRIMARY_KEY, NOT_NULL]),
             (''customer_name'', NVarcharT 150, [NOT_NULL]),
             (''address'', NVarcharT 250, [NULLABLE]),
             (''birth_date'', DateT, [NULLABLE]),
             (''airflow_run_id'', NVarcharT 250, [NULLABLE]),
             (''loaded_at'', DateTime2T, [DEFAULT ''SYSDATETIME()''])]"
    by (simp add: target_columns_def)
  ultimately show ?thesis
    by (simp add: created_twice created_columns spec_destination_row_def)
qed

text \<open>
  Claim C7. On a database that can be reached, \<open>create_table_if_missed\<close> run twice
  raises no error in either run. Where the table was absent the first run creates
  \<^verbatim>\<open>dbo.uinque_values\<close> with the six columns of the script, which are the fields of
  the Destination Row of section 3 with the fifth named \<^verbatim>\<open>airflow_run_id\<close> instead
  of \<^verbatim>\<open>run_id\<close>, and on an empty database the catalogue then holds that table and no
  other; where the table was there already the first run changes nothing. The second
  run executes no schema-changing statement and leaves catalogue and rows as the first
  run left them: it only opens a connection.
\<close>

theorem create_table_idempotent:
  assumes "reachable e"
  shows "\<exists>w1 w2. create_table_if_missed e w = (None, w1)
    \<and> create_table_if_missed e w1 = (None, w2)
    \<and> (tables w TARGET_TABLE = None \<longrightarrow>
          tables w1 = (tables w)(''dbo.uinque_values'' \<mapsto>
            [(''id'', IntT, [IDENTITY 1 1, PRIMARY_KEY, NOT_NULL]),
             (''customer_name'', NVarcharT 150, [NOT_NULL]),
             (''address'', NVarcharT 250, [NULLABLE]),
             (''birth_date'', DateT, [NULLABLE]),
             (''airflow_run_id'', NVarcharT 250, [NULLABLE]),
             (''loaded_at'', DateTime2T, [DEFAULT ''SYSDATETIME()''])])
          \<and> Option.bind (tables w1 ''dbo.uinque_values'') spec_columns_of
              = Some (spec_destination_row[4 := (''airflow_run_id'', NullableText 250)])
          \<and> ddl w1 = Suc (ddl w))
    \<and> (tables w = Map.empty \<longrightarrow>
          tables w2 = [''dbo.uinque_values'' \<mapsto>
            [(''id'', IntT, [IDENTITY 1 1, PRIMARY_KEY, NOT_NULL]),
             (''customer_name'', NVarcharT 150, [NOT_NULL]),
             (''address'', NVarcharT 250, [NULLABLE]),
             (''birth_date'', DateT, [NULLABLE]),
             (''airflow_run_id'', NVarcharT 250, [NULLABLE]),
             (''loaded_at'', DateTime2T, [DEFAULT ''SYSDATETIME()''])]])
    \<and> (tables w TARGET_TABLE \<noteq> None \<longrightarrow> tables w1 = tables w \<and> ddl w1 = ddl w)
    \<and> tables w2 = tables w1
    \<and> ddl w2 = ddl w1
    \<and> committed w2 = committed w1
    \<and> w2 = connect w1"
proof -
  have cols: "target_columns =
      [(''id'', IntT, [IDENTITY 1 1, PRIMARY_KEY, NOT_NULL]),
             (''customer_name'', NVarcharT 150, [NOT_NULL]),
             (''address'', NVarcharT 250, [NULLABLE]),
             (''birth_date'', DateT, [NULLABLE]),
             (''airflow_run_id'', NVarcharT 250, [NULLABLE]),
             (''loaded_at'', DateTime2T, [DEFAULT ''SYSDATETIME()''])]"
    by (simp add: target_columns_def)
  have sec: "spec_columns_of target_columns
      = Some (spec_destination_row[4 := (''airflow_run_id'', NullableText 250)])"
    by (simp add: created_columns spec_destination_row_def)
  have name: "TARGET_TABLE = ''dbo.uinque_values''" by (simp add: TARGET_TABLE_def)
  show ?thesis
  proof (cases "tables w TARGET_TABLE")
    case None
    then have "tables w ''dbo.uinque_values'' = None" by (simp add: name)
    with assms sec show ?thesis
      unfolding cols [symmetric]
      by (auto simp: create_table_if_missed_def create_table_sql_def connect_def Let_def name)
  next
    case (Some cs)
    then have "tables w ''dbo.uinque_values'' = Some cs" by (simp add: name)
    with assms show ?thesis
      unfolding cols [symmetric]
      by (auto simp: create_table_if_missed_def create_table_sql_def connect_def Let_def name)
  qed
qed

text \<open>
  On the empty database the two runs leave one table, \<^verbatim>\<open>dbo.uinque_values\<close>, and
  one schema-changing statement has been executed, by the first run.
\<close>

theorem create_table_idempotent_witness:
  "reachable (sample_run ''manual__1'')
   \<and> tables fresh TARGET_TABLE = None
   \<and> (\<exists>w1 w2.
      create_table_if_missed (sample_run ''manual__1'') fresh = (None, w1)
      \<and> create_table_if_missed (sample_run ''manual__1'') w1 = (None, w2)
      \<and> tables w2 = [''dbo.uinque_values'' \<mapsto>
            [(''id'', IntT, [IDENTITY 1 1, PRIMARY_KEY, NOT_NULL]),
             (''customer_name'', NVarcharT 150, [NOT_NULL]),
             (''address'', NVarcharT 250, [NULLABLE]),
             (''birth_date'', DateT, [NULLABLE]),
             (''airflow_run_id'', NVarcharT 250, [NULLABLE]),
             (''loaded_at'', DateTime2T, [DEFAULT ''SYSDATETIME()''])]]
      \<and> Option.bind (tables w1 ''dbo.uinque_values'') spec_columns_of
          = Some [(''id'', AutoIncrementingKey),
              (''customer_name'', NonNullText 150),
              (''address'', NullableText 250),
              (''birth_date'', NullableDate),
              (''airflow_run_id'', NullableText 250),
              (''loaded_at'', ServerTimestampDefault)]
      \<and> ddl w1 = 1 \<and> ddl w2 = 1)"
proof -
  have h: "reachable (sample_run ''manual__1'')" by (simp add: sample_run_def)
  have t: "tables fresh TARGET_TABLE = None" "tables fresh = Map.empty" "ddl fresh = 0"
    by (simp_all add: fresh_def)
  have s: "spec_destination_row[4 := (''airflow_run_id'', NullableText 250)]
      = [(''id'', AutoIncrementingKey),
              (''customer_name'', NonNullText 150),
              (''address'', NullableText 250),
              (''birth_date'', NullableDate),
              (''airflow_run_id'', NullableText 250),
              (''loaded_at'', ServerTimestampDefault)]"
    by (simp add: spec_destination_row_def)
  from create_table_idempotent [OF h, of fresh] obtain w1 w2 where
    r1: "create_table_if_missed (sample_run ''manual__1'') fresh = (None, w1)"
    and r2: "create_table_if_missed (sample_run ''manual__1'') w1 = (None, w2)"
    and a: "tables fresh TARGET_TABLE = None \<longrightarrow>
          tables w1 = (tables fresh)(''dbo.uinque_values'' \<mapsto>
            [(''id'', IntT, [IDENTITY 1 1, PRIMARY_KEY, NOT_NULL]),
             (''customer_name'', NVarcharT 150, [NOT_NULL]),
             (''address'', NVarcharT 250, [NULLABLE]),
             (''birth_date'', DateT, [NULLABLE]),
             (''airflow_run_id'', NVarcharT 250, [NULLABLE]),
             (''loaded_at'', DateTime2T, [DEFAULT ''SYSDATETIME()''])])
          \<and> Option.bind (tables w1 ''dbo.uinque_values'') spec_columns_of
              = Some (spec_destination_row[4 := (''airflow_run_id'', NullableText 250)])
          \<and> ddl w1 = Suc (ddl fresh)"
    and b: "tables fresh = Map.empty \<longrightarrow>
          tables w2 = [''dbo.uinque_values'' \<mapsto>
            [(''id'', IntT, [IDENTITY 1 1, PRIMARY_KEY, NOT_NULL]),
             (''customer_name'', NVarcharT 150, [NOT_NULL]),
             (''address'', NVarcharT 250, [NULLABLE]),
             (''birth_date'', DateT, [NULLABLE]),
             (''airflow_run_id'', NVarcharT 250, [NULLABLE]),
             (''loaded_at'', DateTime2T, [DEFAULT ''SYSDATETIME()''])]]"
    and d: "ddl w2 = ddl w1"
    by (elim exE conjE) (rule that)
  note c = mp [OF a t(1)]
  note a' = conjunct1 [OF conjunct2 [OF c]]
  from conjunct2 [OF conjunct2 [OF c]] t(3) have d1: "ddl w1 = 1" by simp
  note b' = mp [OF b t(2)]
  from d d1 have d2: "ddl w2 = 1" by simp
  show ?thesis
    using h t(1) r1 r2 b' a' [unfolded s] d1 d2 by (intro conjI exI) assumption+
qed

subsection \<open>Names\<close>

lemma survives_iff:
  "select ''customer_name'' (columns df) r = [v] \<Longrightarrow> survives df r \<longleftrightarrow> strip (py_str v) \<noteq> ''''"
  by (simp add: survives_def)

lemma tuple_of_name:
  assumes "rectangular df" and "select ''customer_name'' (columns df) r = [v]"
  shows "tuple_of e df run_id r ! 0 = Str (strip (py_str v))"
proof -
  let ?objects = "object_flags
          (length (filter (\<lambda>l. l = ''customer_name'') (columns df))
           + length (filter (\<lambda>l. l = ''address'') (columns df))
           + length (filter (\<lambda>l. l = ''birth_date'') (columns df)) + 1)
          (map (transformed e df run_id) (rows df))"
  have t: "transformed e df run_id r ! 0 = Str (strip (py_str v))"
    "0 < length (transformed e df run_id r)"
    using assms(2) by (simp_all add: transformed_def)
  have "0 < length ?objects"
    unfolding length_dtypes [OF assms(1)] by simp
  from where_row_nth [OF this t(2)] t(1) show ?thesis
    by (simp add: tuple_of_def)
qed

lemma rows_normalize [simp]: "rows (normalize_columns df) = rows df"
  by (simp add: normalize_columns_def)

subsection \<open>Rows without a name\<close>

lemma strip_nan: "strip ''nan'' = ''nan''"
  by (simp add: strip_def isspace_def)

text \<open>
  Claim C9. A row whose customer_name is NaN survives line 76, since \<^verbatim>\<open>astype(str)\<close>
  makes the text \<^verbatim>\<open>nan\<close> of it: the first field of its tuple is the string
  \<^verbatim>\<open>nan\<close>, not \<^verbatim>\<open>None\<close>. The records of the run are the tuples of the first 50
  surviving rows, and they are committed when the server is reached and accepts them.
\<close>

theorem missing_name_becomes_nan:
  assumes "read_csv (csv e) = Inr df" and "prepare e df = Inr recs"
    and "select ''customer_name'' (columns (normalize_columns df)) r = [NaN]"
  shows "survives (normalize_columns df) r
    \<and> (\<exists>run_id.
          recs = map (tuple_of e (normalize_columns df) run_id)
                   (take 50 (filter (survives (normalize_columns df)) (rows df)))
          \<and> tuple_of e (normalize_columns df) run_id r ! 0 = Str ''nan'')
    \<and> (reachable e \<and> accepted e (executes w) recs \<longrightarrow>
          fst (load_data e w) = None
          \<and> committed (snd (load_data e w)) = committed w @ recs)"
proof (intro conjI impI)
  note rect = rectangular_read_csv [OF assms(1)]
  show "survives (normalize_columns df) r"
    using survives_iff [OF assms(3)] by (simp add: strip_nan)
  from prepare_Inr [OF rect assms(2)] obtain run_id where
    "recs = map (tuple_of e (normalize_columns df) run_id)
              (take 50 (filter (survives (normalize_columns df)) (rows df)))"
    by auto
  moreover have "tuple_of e (normalize_columns df) run_id r ! 0 = Str ''nan''"
    using tuple_of_name [OF _ assms(3), of e run_id] rect
    by (simp add: strip_nan rectangular_normalize)
  ultimately show "\<exists>run_id.
          recs = map (tuple_of e (normalize_columns df) run_id)
                   (take 50 (filter (survives (normalize_columns df)) (rows df)))
          \<and> tuple_of e (normalize_columns df) run_id r ! 0 = Str ''nan''"
    by blast
next
  assume a: "reachable e \<and> accepted e (executes w) recs"
  show "fst (load_data e w) = None"
  proof (cases "recs = []")
    case True
    with load_data_records [OF assms(1,2), of w] show ?thesis by (simp add: info_def)
  next
    case False
    with load_data_accepted [OF assms(1,2) False, of w] a show ?thesis by simp
  qed
  show "committed (snd (load_data e w)) = committed w @ recs"
  proof (cases "recs = []")
    case True
    with load_data_records [OF assms(1,2), of w] show ?thesis by (simp add: info_def)
  next
    case False
    with load_data_accepted [OF assms(1,2) False, of w] a show ?thesis by simp
  qed
qed

text \<open>The third row of the sample file has no value at all.\<close>

lemma sample_nan_row:
  "select ''customer_name'' (columns (normalize_columns sample_file)) [NaN, NaN, NaN, NaN] = [NaN]"
  unfolding sample_columns by (simp add: select_def)

theorem missing_name_becomes_nan_witness:
  "read_csv (csv (sample_run ''manual__1'')) = Inr sample_file
   \<and> prepare (sample_run ''manual__1'') sample_file
       = Inr [[Str ''Ann'', Str ''1 Main St'', Day (Date 1990 5 17), Str ''manual__1''],
              [Str ''nan'', PyNone, PyNone, Str ''manual__1''],
              [Str ''Bob'', PyNone, PyNone, Str ''manual__1'']]
   \<and> select ''customer_name'' (columns (normalize_columns sample_file)) [NaN, NaN, NaN, NaN] = [NaN]
   \<and> survives (normalize_columns sample_file) [NaN, NaN, NaN, NaN]
   \<and> reachable (sample_run ''manual__1'')
   \<and> accepted (sample_run ''manual__1'') (executes fresh)
        [[Str ''Ann'', Str ''1 Main St'', Day (Date 1990 5 17), Str ''manual__1''],
         [Str ''nan'', PyNone, PyNone, Str ''manual__1''],
         [Str ''Bob'', PyNone, PyNone, Str ''manual__1'']]
   \<and> fst (load_data (sample_run ''manual__1'') fresh) = None
   \<and> committed (snd (load_data (sample_run ''manual__1'') fresh))
       = [[Str ''Ann'', Str ''1 Main St'', Day (Date 1990 5 17), Str ''manual__1''],
          [Str ''nan'', PyNone, PyNone, Str ''manual__1''],
          [Str ''Bob'', PyNone, PyNone, Str ''manual__1'']]"
proof -
  let ?e = "sample_run ''manual__1''"
  let ?recs = "[[Str ''Ann'', Str ''1 Main St'', Day (Date 1990 5 17), Str ''manual__1''],
          [Str ''nan'', PyNone, PyNone, Str ''manual__1''],
          [Str ''Bob'', PyNone, PyNone, Str ''manual__1'']]"
  note rd = sample_read [of "''manual__1''"]
  note pr = sample_prepare [of "''manual__1''"]
  have reach: "reachable ?e" by (simp add: sample_run_def)
  have acc: "accepted ?e (executes fresh) ?recs"
    by (simp add: accepted_def sample_run_def)
  have cf: "committed fresh = []" by (simp add: fresh_def)
  from missing_name_becomes_nan [OF rd pr sample_nan_row, of fresh] reach acc
  have "survives (normalize_columns sample_file) [NaN, NaN, NaN, NaN]"
    "fst (load_data ?e fresh) = None"
    "committed (snd (load_data ?e fresh)) = committed fresh @ ?recs"
    by blast+
  then show ?thesis
    using rd pr sample_nan_row reach acc unfolding cf by simp
qed

subsection \<open>Rows with an empty name\<close>

text \<open>
  Claim C3. The claim does not hold of the script. Line 74 announces that
  customer_name is made \<^verbatim>\<open>NOT NULL / not empty\<close>, but line 75 converts with
  \<^verbatim>\<open>astype(str)\<close> before it strips, and the empty customer_name of a source row,
  which \<^verbatim>\<open>read_csv\<close> reads as NaN, becomes the text \<^verbatim>\<open>nan\<close>. Line 76 then drops
  only the rows whose name is made of whitespace. On the file of the three lines
  \<^verbatim>\<open>Ann;1 Main St;1990-05-17\<close>, \<^verbatim>\<open>;2 Side St;1980-01-01\<close> and
  \<^verbatim>\<open>   ;3 Back St;1980-01-01\<close> the row with the name of three spaces is dropped,
  and the row with the empty name is prepared with the name \<^verbatim>\<open>nan\<close>, counted in
  the log and inserted.
\<close>

theorem empty_name_row_inserted:
  "read_csv (csv unnamed_run) = Inr unnamed_file
   \<and> map (select ''customer_name'' (columns (normalize_columns unnamed_file))) (rows unnamed_file)
       = [[Str ''Ann''], [NaN], [Str ''   '']]
   \<and> prepare unnamed_run unnamed_file
       = Inr [[Str ''Ann'', Str ''1 Main St'', Day (Date 1990 5 17), Str ''manual__1''],
              [Str ''nan'', Str ''2 Side St'', Day (Date 1980 1 1), Str ''manual__1'']]
   \<and> fst (load_data unnamed_run fresh) = None
   \<and> committed (snd (load_data unnamed_run fresh))
       = [[Str ''Ann'', Str ''1 Main St'', Day (Date 1990 5 17), Str ''manual__1''],
          [Str ''nan'', Str ''2 Side St'', Day (Date 1980 1 1), Str ''manual__1'']]
   \<and> logger (snd (load_data unnamed_run fresh))
       = [LoadingData, MissingColumnsCheck, Prepared 2, Inserted 2 2, Done 2]"
proof -
  let ?recs = "[[Str ''Ann'', Str ''1 Main St'', Day (Date 1990 5 17), Str ''manual__1''],
                [Str ''nan'', Str ''2 Side St'', Day (Date 1980 1 1), Str ''manual__1'']]"
  have rd: "read_csv (csv unnamed_run) = Inr unnamed_file"
    by (simp add: unnamed_run_def unnamed_file_def read_csv_def pad_def)
  have names: "map (select ''customer_name'' (columns (normalize_columns unnamed_file)))
      (rows unnamed_file) = [[Str ''Ann''], [NaN], [Str ''   '']]"
    by code_simp
  have pr: "prepare unnamed_run unnamed_file = Inr ?recs"
    by code_simp
  have "reachable unnamed_run" and "accepted unnamed_run (executes fresh) ?recs"
    by (simp_all add: unnamed_run_def accepted_def)
  from load_data_accepted [OF rd pr _ this] have
    "load_data unnamed_run fresh = (None,
      fresh\<lparr>logger := logger fresh @ [LoadingData, MissingColumnsCheck, Prepared (length ?recs),
                              Inserted (length ?recs) (length ?recs), Done (length ?recs)],
        connects := Suc (connects fresh), pending := [], executes := Suc (executes fresh),
        committed := committed fresh @ ?recs, commits := Suc (commits fresh)\<rparr>)"
    by simp
  then have "fst (load_data unnamed_run fresh) = None"
    "committed (snd (load_data unnamed_run fresh)) = ?recs"
    "logger (snd (load_data unnamed_run fresh))
       = [LoadingData, MissingColumnsCheck, Prepared 2, Inserted 2 2, Done 2]"
    by (simp_all add: fresh_def)
  with rd names pr show ?thesis by (intro conjI) assumption+
qed

subsection \<open>Dates that do not parse\<close>

text \<open>
  Claim C5. The claim does not hold of the script. An unparseable birth_date raises
  nothing: line 71 makes NaT of it. Line 79 is there to turn every missing value into
  \<^verbatim>\<open>None\<close>, but it does so only in a column of dtype object, and the birth_date
  column is of dtype object only when some birth_date of the file parses. On the file of
  the two lines \<^verbatim>\<open>Ann;1 Main St;not a date\<close> and \<^verbatim>\<open>Bob;2 Side St;unknown\<close> no
  date parses, the column is a datetime64 column, and the records handed to
  \<^verbatim>\<open>executemany\<close> carry NaT as birth_date, not \<^verbatim>\<open>None\<close>. On the sample file the
  date of the first row parses, and the date of Bob's row, which does not, is
  \<^verbatim>\<open>None\<close> in the record.
\<close>

theorem unparsed_dates_stay_NaT:
  "read_csv (csv undated_run) = Inr undated_file
   \<and> map (to_datetime undated_run (birth_dates (normalize_columns undated_file)))
       (birth_dates (normalize_columns undated_file)) = [None, None]
   \<and> prepare undated_run undated_file
       = Inr [[Str ''Ann'', Str ''1 Main St'', NaT, Str ''manual__1''],
              [Str ''Bob'', Str ''2 Side St'', NaT, Str ''manual__1'']]
   \<and> fst (load_data undated_run fresh) = None
   \<and> committed (snd (load_data undated_run fresh))
       = [[Str ''Ann'', Str ''1 Main St'', NaT, Str ''manual__1''],
          [Str ''Bob'', Str ''2 Side St'', NaT, Str ''manual__1'']]
   \<and> to_datetime (sample_run ''manual__1'') (birth_dates (normalize_columns sample_file))
         (Str ''not a date'') = None
   \<and> prepare (sample_run ''manual__1'') sample_file
       = Inr [[Str ''Ann'', Str ''1 Main St'', Day (Date 1990 5 17), Str ''manual__1''],
              [Str ''nan'', PyNone, PyNone, Str ''manual__1''],
              [Str ''Bob'', PyNone, PyNone, Str ''manual__1'']]"
proof -
  let ?recs = "[[Str ''Ann'', Str ''1 Main St'', NaT, Str ''manual__1''],
                [Str ''Bob'', Str ''2 Side St'', NaT, Str ''manual__1'']]"
  have rd: "read_csv (csv undated_run) = Inr undated_file"
    by (simp add: undated_run_def undated_file_def read_csv_def pad_def)
  have dates: "map (to_datetime undated_run (birth_dates (normalize_columns undated_file)))
       (birth_dates (normalize_columns undated_file)) = [None, None]"
    by code_simp
  have pr: "prepare undated_run undated_file = Inr ?recs"
    by code_simp
  have "reachable undated_run" and "accepted undated_run (executes fresh) ?recs"
    by (simp_all add: undated_run_def accepted_def)
  from load_data_accepted [OF rd pr _ this] have
    "load_data undated_run fresh = (None,
      fresh\<lparr>logger := logger fresh @ [LoadingData, MissingColumnsCheck, Prepared (length ?recs),
                              Inserted (length ?recs) (length ?recs), Done (length ?recs)],
        connects := Suc (connects fresh), pending := [], executes := Suc (executes fresh),
        committed := committed fresh @ ?recs, commits := Suc (commits fresh)\<rparr>)"
    by simp
  then have "fst (load_data undated_run fresh) = None"
    "committed (snd (load_data undated_run fresh)) = ?recs"
    by (simp_all add: fresh_def)
  moreover have "to_datetime (sample_run ''manual__1'')
      (birth_dates (normalize_columns sample_file)) (Str ''not a date'') = None"
    by (simp add: sample_run_def sample_dates_def)
  moreover note sample_prepare [of "''manual__1''"]
  ultimately show ?thesis using rd dates pr by (intro conjI) assumption+
qed

subsection \<open>Batches and commits\<close>





subsection \<open>The first fifty\<close>

lemma count_list_member: "count_list xs x = 1 \<Longrightarrow> x \<in> set xs"
  by (induction xs) (auto split: if_splits)

lemma long_columns:
  "columns (normalize_columns long_file) = [''customer_name'', ''address'', ''birth_date'']"
  by (simp add: normalize_columns_def long_file_def lower_def lower_char_def strip_def isspace_def)

lemma long_survivors:
  "filter (survives (normalize_columns long_file)) (rows long_file)
   = map (\<lambda>i. [Str (''customer '' @ digits i), Str ''street'', Str ''1990-05-17'']) [0..<60]"
  by code_simp

lemma long_dtypes:
  "object_flags
     (length (filter (\<lambda>l. l = ''customer_name'') (columns (normalize_columns long_file)))
      + length (filter (\<lambda>l. l = ''address'') (columns (normalize_columns long_file)))
      + length (filter (\<lambda>l. l = ''birth_date'') (columns (normalize_columns long_file))) + 1)
     (map (transformed long_run (normalize_columns long_file) ''manual__1'')
        (rows (normalize_columns long_file)))
   = [True, True, True, True]"
  by code_simp

lemma long_transformed:
  "map (\<lambda>r. where_row [True, True, True, True]
              (transformed long_run (normalize_columns long_file) ''manual__1'' r))
     (take 50 (map (\<lambda>i. [Str (''customer '' @ digits i), Str ''street'', Str ''1990-05-17''])
        [0..<60]))
   = map (\<lambda>i. [Str (''customer '' @ digits i), Str ''street'', Day (Date 1990 5 17),
                Str ''manual__1'']) [0..<50]"
  by code_simp

lemma long_tuples:
  "map (tuple_of long_run (normalize_columns long_file) ''manual__1'')
     (take 50 (map (\<lambda>i. [Str (''customer '' @ digits i), Str ''street'', Str ''1990-05-17''])
        [0..<60]))
   = map (\<lambda>i. [Str (''customer '' @ digits i), Str ''street'', Day (Date 1990 5 17),
                Str ''manual__1'']) [0..<50]"
proof -
  have "tuple_of long_run (normalize_columns long_file) ''manual__1''
      = (\<lambda>r. where_row [True, True, True, True]
              (transformed long_run (normalize_columns long_file) ''manual__1'' r))"
    by (rule ext) (simp only: tuple_of_def long_dtypes)
  then show ?thesis by (simp only: long_transformed)
qed


lemma long_read: "read_csv (csv long_run) = Inr long_file"
proof -
  have "rectangular long_file"
    unfolding rectangular_def long_file_def by (simp del: upt.simps)
  then show ?thesis
    by (simp add: long_run_def rectangular_read_csv_id)
qed

text \<open>
  Claim C1. A run adds at most 50 tuples to the table, whatever the file. The records
  are the tuples of the first 50 rows, in file order, among those that survive line 76:
  the cap comes after the cleaning and is the constant 50 of line 78. When the header
  has each of the three names once, at least 50 rows survive, the server is reached and
  accepts the batch, the run ends normally and has added exactly these 50 tuples.
\<close>

theorem first_fifty:
  "(\<exists>new. committed (snd (load_data e w)) = committed w @ new \<and> length new \<le> 50)
   \<and> (\<forall>df recs. read_csv (csv e) = Inr df \<and> prepare e df = Inr recs \<longrightarrow>
         (\<exists>run_id. recs = map (tuple_of e (normalize_columns df) run_id)
                            (take 50 (filter (survives (normalize_columns df)) (rows df)))))
   \<and> (\<forall>df run_id.
         read_csv (csv e) = Inr df
         \<and> context e ''run_id'' = Some run_id
         \<and> (\<forall>n \<in> expected. count_list (columns (normalize_columns df)) n = 1)
         \<and> 50 \<le> length (filter (survives (normalize_columns df)) (rows df))
         \<and> reachable e
         \<and> accepts e (executes w)
              (map (tuple_of e (normalize_columns df) run_id)
                 (take 50 (filter (survives (normalize_columns df)) (rows df))))
       \<longrightarrow> fst (load_data e w) = None
           \<and> committed (snd (load_data e w))
               = committed w @ map (tuple_of e (normalize_columns df) run_id)
                                 (take 50 (filter (survives (normalize_columns df)) (rows df)))
           \<and> length (map (tuple_of e (normalize_columns df) run_id)
                        (take 50 (filter (survives (normalize_columns df)) (rows df)))) = 50)"
proof (intro conjI allI impI)
  from load_data_outcome [of e w]
  show "\<exists>new. committed (snd (load_data e w)) = committed w @ new \<and> length new \<le> 50"
  proof
    assume "\<exists>df recs. read_csv (csv e) = Inr df \<and> prepare e df = Inr recs \<and> recs \<noteq> []
       \<and> accepted e (executes w) recs \<and> fst (load_data e w) = None
       \<and> committed (snd (load_data e w)) = committed w @ recs
       \<and> executes (snd (load_data e w)) = Suc (executes w)
       \<and> commits (snd (load_data e w)) = Suc (commits w)"
    then obtain df recs where a: "read_csv (csv e) = Inr df" "prepare e df = Inr recs"
      "committed (snd (load_data e w)) = committed w @ recs"
      by blast
    from prepare_length [OF rectangular_read_csv [OF a(1)] a(2)] a(3) show ?thesis by blast
  next
    assume "committed (snd (load_data e w)) = committed w
       \<and> executes (snd (load_data e w)) \<le> Suc (executes w)
       \<and> commits (snd (load_data e w)) = commits w"
    then show ?thesis by simp
  qed
next
  fix df recs
  assume "read_csv (csv e) = Inr df \<and> prepare e df = Inr recs"
  then have "rectangular df" "prepare e df = Inr recs"
    by (auto dest: rectangular_read_csv)
  from prepare_Inr [OF this]
  show "\<exists>run_id. recs = map (tuple_of e (normalize_columns df) run_id)
                            (take 50 (filter (survives (normalize_columns df)) (rows df)))"
    by auto
next
  fix df run_id
  let ?ndf = "normalize_columns df"
  let ?recs = "map (tuple_of e ?ndf run_id) (take 50 (filter (survives ?ndf) (rows df)))"
  assume a: "read_csv (csv e) = Inr df
         \<and> context e ''run_id'' = Some run_id
         \<and> (\<forall>n \<in> expected. count_list (columns ?ndf) n = 1)
         \<and> 50 \<le> length (filter (survives ?ndf) (rows df))
         \<and> reachable e
         \<and> accepts e (executes w) ?recs"
  then have rd: "read_csv (csv e) = Inr df" and run: "context e ''run_id'' = Some run_id"
    and n50: "50 \<le> length (filter (survives ?ndf) (rows df))" and reach: "reachable e"
    and acc: "accepts e (executes w) ?recs"
    by simp_all
  from a have cnt: "count_list (columns ?ndf) ''customer_name'' = 1"
    "count_list (columns ?ndf) ''address'' = 1" "count_list (columns ?ndf) ''birth_date'' = 1"
    by (simp_all add: expected_def)
  note rect = rectangular_read_csv [OF rd]
  have sub: "expected \<subseteq> set (columns ?ndf)"
    using cnt [THEN count_list_member] by (simp add: expected_def)
  have pr: "prepare e df = Inr ?recs"
    unfolding prepare_rows [OF rect] using sub cnt run by simp
  have len: "length ?recs = 50"
    using n50 by simp
  then have ne: "?recs \<noteq> []" by auto
  have four: "length rec = 4" if "rec \<in> set ?recs" for rec
  proof -
    from that obtain r where r0: "r \<in> set (take 50 (filter (survives ?ndf) (rows df)))"
      and r2: "rec = tuple_of e ?ndf run_id r"
      by auto
    from r0 have "r \<in> set (filter (survives ?ndf) (rows df))" by (rule in_set_takeD)
    then have r1: "r \<in> set (rows df)" by simp
    note r = r1 r2
    have "length (columns ?ndf) \<le> length r"
      using rect r(1) by (simp add: rectangular_def normalize_columns_def)
    moreover have "rectangular ?ndf" using rect by (simp add: rectangular_normalize)
    ultimately have "length (tuple_of e ?ndf run_id r)
        = count_list (columns ?ndf) ''customer_name'' + count_list (columns ?ndf) ''address''
          + count_list (columns ?ndf) ''birth_date'' + 1"
      by (intro tuple_of_length)
    with cnt r(2) show ?thesis by simp
  qed
  have "accepted e (executes w) ?recs"
    unfolding accepted_def using four acc by blast
  from load_data_accepted [OF rd pr ne reach this, of ]
  show "fst (load_data e w) = None"
    and "committed (snd (load_data e w)) = committed w @ ?recs"
    by simp_all
  show "length ?recs = 50" by (rule len)
qed

text \<open>
  On the longer file the blank row is passed over and the tuples of
  \<^verbatim>\<open>customer 0\<close> to \<^verbatim>\<open>customer 49\<close> are inserted.
\<close>

theorem first_fifty_witness:
  "read_csv (csv long_run) = Inr long_file
   \<and> context long_run ''run_id'' = Some ''manual__1''
   \<and> count_list (columns (normalize_columns long_file)) ''customer_name'' = 1
   \<and> count_list (columns (normalize_columns long_file)) ''address'' = 1
   \<and> count_list (columns (normalize_columns long_file)) ''birth_date'' = 1
   \<and> length (filter (survives (normalize_columns long_file)) (rows long_file)) = 60
   \<and> reachable long_run
   \<and> fst (load_data long_run fresh) = None
   \<and> committed (snd (load_data long_run fresh))
       = map (\<lambda>i. [Str (''customer '' @ digits i), Str ''street'', Day (Date 1990 5 17),
                   Str ''manual__1'']) [0..<50]
   \<and> length (committed (snd (load_data long_run fresh))) = 50"
proof -
  let ?ndf = "normalize_columns long_file"
  let ?recs = "map (tuple_of long_run ?ndf ''manual__1'')
                 (take 50 (filter (survives ?ndf) (rows long_file)))"
  have run: "context long_run ''run_id'' = Some ''manual__1''" and reach: "reachable long_run"
    by (simp_all add: long_run_def)
  have cnt: "count_list (columns ?ndf) ''customer_name'' = 1"
    "count_list (columns ?ndf) ''address'' = 1" "count_list (columns ?ndf) ''birth_date'' = 1"
    unfolding long_columns by simp_all
  then have all1: "\<forall>n \<in> expected. count_list (columns ?ndf) n = 1"
    by (simp add: expected_def)
  have n60: "length (filter (survives ?ndf) (rows long_file)) = 60"
    unfolding long_survivors by simp
  then have n50: "50 \<le> length (filter (survives ?ndf) (rows long_file))" by simp
  have "accepts long_run = (\<lambda>k b. True)"
    by (simp add: long_run_def)
  then have acc: "accepts long_run (executes fresh) ?recs"
    by (simp only:)
  have recs: "?recs = map (\<lambda>i. [Str (''customer '' @ digits i), Str ''street'',
      Day (Date 1990 5 17), Str ''manual__1'']) [0..<50]"
    unfolding long_survivors by (rule long_tuples)
  have cf: "committed fresh = []" by (simp add: fresh_def)
  from first_fifty [of long_run fresh] have "\<forall>df run_id.
         read_csv (csv long_run) = Inr df
         \<and> context long_run ''run_id'' = Some run_id
         \<and> (\<forall>n \<in> expected. count_list (columns (normalize_columns df)) n = 1)
         \<and> 50 \<le> length (filter (survives (normalize_columns df)) (rows df))
         \<and> reachable long_run
         \<and> accepts long_run (executes fresh)
              (map (tuple_of long_run (normalize_columns df) run_id)
                 (take 50 (filter (survives (normalize_columns df)) (rows df))))
       \<longrightarrow> fst (load_data long_run fresh) = None
           \<and> committed (snd (load_data long_run fresh))
               = committed fresh @ map (tuple_of long_run (normalize_columns df) run_id)
                                 (take 50 (filter (survives (normalize_columns df)) (rows df)))
           \<and> length (map (tuple_of long_run (normalize_columns df) run_id)
                        (take 50 (filter (survives (normalize_columns df)) (rows df)))) = 50"
    by (elim conjE)
  from this [rule_format, of long_file "''manual__1''",
      OF conjI [OF long_read conjI [OF run conjI [OF all1 conjI [OF n50 conjI [OF reach acc]]]]]]
  have concl: "fst (load_data long_run fresh) = None
    \<and> committed (snd (load_data long_run fresh)) = committed fresh @ ?recs
    \<and> length ?recs = 50" .
  then have c1: "fst (load_data long_run fresh) = None" by (rule conjunct1)
  from concl have "committed (snd (load_data long_run fresh)) = committed fresh @ ?recs"
    by (elim conjE)
  then have c2': "committed (snd (load_data long_run fresh)) = ?recs"
    unfolding cf by (simp only: append_Nil)
  from concl have c3': "length ?recs = 50" by (elim conjE)
  have c2: "committed (snd (load_data long_run fresh))
      = map (\<lambda>i. [Str (''customer '' @ digits i), Str ''street'', Day (Date 1990 5 17),
                  Str ''manual__1'']) [0..<50]"
    unfolding c2' by (rule recs)
  have c3: "length (committed (snd (load_data long_run fresh))) = 50"
    unfolding c2' by (rule c3')
  show ?thesis
    by (intro conjI) (fact long_read run cnt n60 reach c1 c2 c3)+
qed

end
